theory Spec2Isabelle
  imports Main "HOL-Library.AList"
begin

section \<open>Fragment resolver of the near-operation-file preset\<close>

text \<open>
  The development follows \<^verbatim>\<open>packages/presets/near-operation-file/src/fragment-resolver.ts\<close>.
  JavaScript objects used as dictionaries (the fragment registry, the usage map, the map
  from fragment files to import names) are association lists in insertion order:
  assigning to a present key replaces the value where it stands, assigning to a new key
  appends. Keys are GraphQL names and generated file paths, so none is an array index.
  While the registry is built, reading a name that the object does not own reaches its
  prototype; this is part of the model of the builder. The planner reads the names that
  the usage resolver reports; names inherited from the prototype are taken not to occur
  among them. A JavaScript \<^verbatim>\<open>Set\<close> of strings is a duplicate-free list in insertion
  order.
\<close>

subsection \<open>Documents\<close>

datatype SelectionNode =
    Field string "SelectionNode list"
  | FragmentSpread string
  | InlineFragment "SelectionNode list"

record FragmentDefinitionNode =
  name_value :: string
  typeCondition :: string
  selectionSet :: "SelectionNode list"

datatype DefinitionNode =
    FragmentDefinition FragmentDefinitionNode
  | OperationDefinition string "SelectionNode list"

type_synonym DocumentNode = "DefinitionNode list"

record DocumentFile =
  location :: string
  document :: DocumentNode

subsection \<open>Configuration\<close>

text \<open>
  The enumeration \<^verbatim>\<open>DocumentMode\<close> is declared in visitor-plugin-common; the source
  names four of its members, the last constructor stands for any other member.
\<close>

datatype DocumentMode =
    graphQLTag
  | documentNode
  | documentNodeImportFragments
  | external
  | otherDocumentMode string

record RawConfig =
  documentMode :: "DocumentMode option"

text \<open>A configured plugin is an object; the model keeps the list of its keys.\<close>

type_synonym ConfiguredPlugin = "string list"

record PresetFnArgs =
  documents :: "DocumentFile list"
  config :: RawConfig
  plugins :: "ConfiguredPlugin list"
  baseOutputDir :: string

subsection \<open>Registry and planner results\<close>

record FragmentRegistryEntry =
  filePath :: string
  importNames :: "string list"
  onType :: string
  node :: FragmentDefinitionNode

type_synonym FragmentRegistry = "(string \<times> FragmentRegistryEntry) list"

record LoadedFragment =
  level :: nat
  isExternal :: bool
  name :: string
  fragmentOnType :: string
  fragmentNode :: FragmentDefinitionNode

record ResolvedFragments =
  externalFragments :: "LoadedFragment list"
  fragmentImportStatements :: "string list"

subsection \<open>Collaborators\<close>

text \<open>
  The functions the resolver imports or receives are parameters of the model: the schema
  (\<^verbatim>\<open>getType\<close>, \<^verbatim>\<open>getPossibleTypes\<close>, the name of a type), graphql's
  \<^verbatim>\<open>print\<close>, the naming methods of \<^verbatim>\<open>BaseVisitor\<close>
  (\<^verbatim>\<open>convertName\<close> takes the name, \<^verbatim>\<open>useTypesPrefix\<close> and the suffix), the two
  callbacks of \<^verbatim>\<open>DocumentImportResolverOptions\<close> (\<^verbatim>\<open>generateImportStatement\<close>
  takes \<^verbatim>\<open>baseOutputDir\<close>, \<^verbatim>\<open>relativeOutputPath\<close>, the import path and the names)
  and \<^verbatim>\<open>extractExternalFragmentsInUse\<close> of \<^verbatim>\<open>./utils\<close>.
\<close>

record 'ty Collaborators =
  getType :: "string \<Rightarrow> 'ty option"
  getPossibleTypes :: "'ty \<Rightarrow> 'ty list"
  typeName :: "'ty \<Rightarrow> string"
  print :: "FragmentDefinitionNode \<Rightarrow> string"
  getFragmentVariableName :: "string \<Rightarrow> string"
  getFragmentSuffix :: "string \<Rightarrow> string"
  convertName :: "string \<Rightarrow> bool \<Rightarrow> string \<Rightarrow> string"
  generateFilePath :: "string \<Rightarrow> string"
  generateImportStatement :: "string \<Rightarrow> string \<Rightarrow> string \<Rightarrow> string list \<Rightarrow> string"
  extractExternalFragmentsInUse :: "DocumentNode \<Rightarrow> FragmentRegistry \<Rightarrow> (string \<times> nat) list"

datatype error = TypeError | Error string

subsection \<open>Strings\<close>

text \<open>Lower-casing of the ASCII letters; other characters are kept.\<close>

definition toLowerCaseChar :: "char \<Rightarrow> char" where
  "toLowerCaseChar c =
     (case map_of (zip ''ABCDEFGHIJKLMNOPQRSTUVWXYZ'' ''abcdefghijklmnopqrstuvwxyz'') c of
        None \<Rightarrow> c
      | Some l \<Rightarrow> l)"

definition toLowerCase :: "string \<Rightarrow> string" where
  "toLowerCase s = map toLowerCaseChar s"

fun join :: "string \<Rightarrow> string list \<Rightarrow> string" where
  "join sep [] = []"
| "join sep [x] = x"
| "join sep (x # y # ys) = x @ sep @ join sep (y # ys)"

subsection \<open>Document-variable plugins\<close>

definition DOC_VAR_PLUGINS :: "string list" where
  "DOC_VAR_PLUGINS =
     [''typescript-react-apollo'',
      ''typescript-apollo-angular'',
      ''typescript-document-nodes'',
      ''typescript-generic-sdk'',
      ''typescript-graphql-request'',
      ''typescript-oclif'',
      ''typescript-stencil-apollo'',
      ''typescript-urql'',
      ''typescript-vue-apollo'']"

text \<open>
  \<^verbatim>\<open>Object.keys(pluginRecord)[0].toLowerCase()\<close> raises a TypeError on a record without
  keys; the loop returns at the first matching record.
\<close>

fun isUsingDocVarPlugin :: "ConfiguredPlugin list \<Rightarrow> error + bool" where
  "isUsingDocVarPlugin [] = Inr False"
| "isUsingDocVarPlugin (pluginRecord # rest) =
     (case pluginRecord of
        [] \<Rightarrow> Inl TypeError
      | key # _ \<Rightarrow>
          (let pluginKey = toLowerCase key in
           if find (\<lambda>t. pluginKey = t \<or> ''@graphql-codegen/'' @ t = pluginKey) DOC_VAR_PLUGINS \<noteq> None
           then Inr True
           else isUsingDocVarPlugin rest))"

subsection \<open>Import names of a fragment\<close>

definition getAllFragmentSubTypes ::
  "'ty Collaborators \<Rightarrow> PresetFnArgs \<Rightarrow> string list \<Rightarrow> string \<Rightarrow> error + string list" where
  "getAllFragmentSubTypes c args possbileTypes nm =
     (case isUsingDocVarPlugin (plugins args) of
        Inl e \<Rightarrow> Inl e
      | Inr hasDocVarPlugin \<Rightarrow>
          (let mode = (case documentMode (config args) of None \<Rightarrow> graphQLTag | Some m \<Rightarrow> m);
               subTypes0 =
                 (if hasDocVarPlugin \<and> mode \<noteq> documentNode \<and> mode \<noteq> external
                     \<and> mode \<noteq> documentNodeImportFragments
                  then [getFragmentVariableName c nm] else []);
               fragmentSuffix = getFragmentSuffix c nm
           in Inr
               (if length possbileTypes = 1
                then subTypes0 @ [convertName c nm True fragmentSuffix]
                else if length possbileTypes \<noteq> 0
                then foldl (\<lambda>subTypes tn.
                        subTypes @ [convertName c nm True (''_'' @ tn @ ''_'' @ fragmentSuffix)])
                      subTypes0 possbileTypes
                else subTypes0)))"

subsection \<open>Building the registry\<close>

text \<open>
  The registry under construction is the plain object \<^verbatim>\<open>{}\<close>: the properties it owns,
  and its prototype. The prototype is \<^verbatim>\<open>Object.prototype\<close> until an assignment to
  \<^verbatim>\<open>__proto__\<close> replaces it by the assigned entry (second component). The functions
  that \<^verbatim>\<open>Object.prototype\<close> provides are listed by name.
\<close>

definition objectPrototypeNames :: "string list" where
  "objectPrototypeNames =
     [''constructor'', ''__defineGetter__'', ''__defineSetter__'', ''hasOwnProperty'',
      ''__lookupGetter__'', ''__lookupSetter__'', ''isPrototypeOf'', ''propertyIsEnumerable'',
      ''toString'', ''valueOf'', ''toLocaleString'']"

type_synonym RegistryObject = "FragmentRegistry \<times> FragmentRegistryEntry option"

text \<open>
  What \<^verbatim>\<open>prev[name]\<close> can be: a registry entry, another truthy value (an inherited
  function or object, a non-empty string, an array), or a falsy one (\<^verbatim>\<open>undefined\<close>, the
  empty string).
\<close>

datatype PropertyValue = EntryValue FragmentRegistryEntry | OtherTruthy | Falsy

text \<open>The properties that an entry object owns, read through the prototype chain.\<close>

definition entryProperty :: "FragmentRegistryEntry \<Rightarrow> string \<Rightarrow> PropertyValue option" where
  "entryProperty e n =
     (if n = ''filePath'' then Some (if filePath e = [] then Falsy else OtherTruthy)
      else if n = ''importNames'' then Some OtherTruthy
      else if n = ''onType'' then Some (if onType e = [] then Falsy else OtherTruthy)
      else if n = ''node'' then Some OtherTruthy
      else None)"

definition getProperty :: "RegistryObject \<Rightarrow> string \<Rightarrow> PropertyValue" where
  "getProperty prev n =
     (if n = ''__proto__''
      then (case snd prev of None \<Rightarrow> OtherTruthy | Some e \<Rightarrow> EntryValue e)
      else case map_of (fst prev) n of
             Some e \<Rightarrow> EntryValue e
           | None \<Rightarrow>
               (case (case snd prev of None \<Rightarrow> None | Some e \<Rightarrow> entryProperty e n) of
                  Some v \<Rightarrow> v
                | None \<Rightarrow> if n \<in> set objectPrototypeNames then OtherTruthy else Falsy))"

definition setProperty ::
  "RegistryObject \<Rightarrow> string \<Rightarrow> FragmentRegistryEntry \<Rightarrow> RegistryObject" where
  "setProperty prev n e =
     (if n = ''__proto__'' then (fst prev, Some e)
      else (AList.update n e (fst prev), snd prev))"

text \<open>
  The state of the scan is the registry built so far together with
  \<^verbatim>\<open>duplicateFragmentNames\<close>. One step is the body of the loop over the fragments of a
  document. A truthy \<^verbatim>\<open>prev[name]\<close> that is not an entry has no \<^verbatim>\<open>node\<close>, and
  graphql's \<^verbatim>\<open>print\<close> of \<^verbatim>\<open>undefined\<close> is \<^verbatim>\<open>undefined\<close>, which differs from the
  serialized fragment: the name is reported. The builder returns the object; the
  properties it owns are the registry that the planner reads.
\<close>

definition unknownTypeMessage :: "FragmentDefinitionNode \<Rightarrow> string" where
  \<open>unknownTypeMessage fragment =
     ''Fragment "'' @ name_value fragment @ ''" is set on non-existing type "''
       @ typeCondition fragment @ ''"!''\<close>

definition duplicatesMessage :: "string list \<Rightarrow> string" where
  \<open>duplicatesMessage duplicateFragmentNames =
     ''Multiple fragments with the name(s) "'' @ join '', '' duplicateFragmentNames
       @ ''" were found.''\<close>

definition registerFragment ::
  "'ty Collaborators \<Rightarrow> PresetFnArgs \<Rightarrow> string \<Rightarrow> RegistryObject \<times> string list
     \<Rightarrow> FragmentDefinitionNode \<Rightarrow> error + RegistryObject \<times> string list" where
  "registerFragment c args loc st fragment =
     (case getType c (typeCondition fragment) of
        None \<Rightarrow> Inl (Error (unknownTypeMessage fragment))
      | Some schemaType \<Rightarrow>
          (let possibleTypes = getPossibleTypes c schemaType;
               path = generateFilePath c loc
           in case getAllFragmentSubTypes c args (map (typeName c) possibleTypes) (name_value fragment) of
                Inl e \<Rightarrow> Inl e
              | Inr names \<Rightarrow>
                  (let prev = fst st;
                       duplicateFragmentNames =
                         (case getProperty prev (name_value fragment) of
                            Falsy \<Rightarrow> snd st
                          | EntryValue old \<Rightarrow>
                              if print c fragment \<noteq> print c (node old)
                              then snd st @ [name_value fragment] else snd st
                          | OtherTruthy \<Rightarrow> snd st @ [name_value fragment])
                   in Inr (setProperty prev (name_value fragment)
                             \<lparr>filePath = path, importNames = names,
                              onType = typeCondition fragment, node = fragment\<rparr>,
                           duplicateFragmentNames))))"

fun registerFragments ::
  "'ty Collaborators \<Rightarrow> PresetFnArgs \<Rightarrow> string \<Rightarrow> RegistryObject \<times> string list
     \<Rightarrow> FragmentDefinitionNode list \<Rightarrow> error + RegistryObject \<times> string list" where
  "registerFragments c args loc st [] = Inr st"
| "registerFragments c args loc st (fragment # fragments) =
     (case registerFragment c args loc st fragment of
        Inl e \<Rightarrow> Inl e
      | Inr st' \<Rightarrow> registerFragments c args loc st' fragments)"

fun fragmentDefinitions :: "DocumentNode \<Rightarrow> FragmentDefinitionNode list" where
  "fragmentDefinitions [] = []"
| "fragmentDefinitions (FragmentDefinition f # ds) = f # fragmentDefinitions ds"
| "fragmentDefinitions (OperationDefinition n sels # ds) = fragmentDefinitions ds"

fun reduceDocuments ::
  "'ty Collaborators \<Rightarrow> PresetFnArgs \<Rightarrow> RegistryObject \<times> string list
     \<Rightarrow> DocumentFile list \<Rightarrow> error + RegistryObject \<times> string list" where
  "reduceDocuments c args st [] = Inr st"
| "reduceDocuments c args st (documentRecord # rest) =
     (case registerFragments c args (location documentRecord) st
             (fragmentDefinitions (document documentRecord)) of
        Inl e \<Rightarrow> Inl e
      | Inr st' \<Rightarrow> reduceDocuments c args st' rest)"

definition buildFragmentRegistry ::
  "'ty Collaborators \<Rightarrow> PresetFnArgs \<Rightarrow> error + FragmentRegistry" where
  "buildFragmentRegistry c args =
     (case reduceDocuments c args (([], None), []) (documents args) of
        Inl e \<Rightarrow> Inl e
      | Inr (registry, duplicateFragmentNames) \<Rightarrow>
          if duplicateFragmentNames \<noteq> []
          then Inl (Error (duplicatesMessage duplicateFragmentNames))
          else Inr (fst registry))"

subsection \<open>Planning the imports of a generated file\<close>

definition setAdd :: "string list \<Rightarrow> string \<Rightarrow> string list" where
  "setAdd s x = (if x \<in> set s then s else s @ [x])"

definition newSet :: "string list \<Rightarrow> string list" where
  "newSet xs = foldl setAdd [] xs"

definition resolveStep ::
  "FragmentRegistry \<Rightarrow> LoadedFragment list \<times> (string \<times> string list) list
     \<Rightarrow> string \<times> nat \<Rightarrow> LoadedFragment list \<times> (string \<times> string list) list" where
  "resolveStep fragmentRegistry st use =
     (case map_of fragmentRegistry (fst use) of
        None \<Rightarrow> st
      | Some fragmentDetails \<Rightarrow>
          (let fragmentFileImports =
                 (if snd use = 0
                  then (case map_of (snd st) (filePath fragmentDetails) of
                          None \<Rightarrow>
                            AList.update (filePath fragmentDetails)
                              (newSet (importNames fragmentDetails)) (snd st)
                        | Some names \<Rightarrow>
                            AList.update (filePath fragmentDetails)
                              (foldl setAdd names (importNames fragmentDetails)) (snd st))
                  else snd st)
           in (fst st @ [\<lparr>level = snd use, isExternal = True, name = fst use,
                          fragmentOnType = onType fragmentDetails,
                          fragmentNode = node fragmentDetails\<rparr>],
               fragmentFileImports)))"

definition resolveFragments ::
  "'ty Collaborators \<Rightarrow> PresetFnArgs \<Rightarrow> FragmentRegistry \<Rightarrow> string \<Rightarrow> DocumentNode
     \<Rightarrow> ResolvedFragments" where
  "resolveFragments c args fragmentRegistry generatedFilePath documentFileContent =
     (let fragmentsInUse = extractExternalFragmentsInUse c documentFileContent fragmentRegistry;
          st = foldl (resolveStep fragmentRegistry) ([], []) fragmentsInUse
      in \<lparr>externalFragments = fst st,
          fragmentImportStatements =
            map (\<lambda>(fragmentsFilePath, names).
                   generateImportStatement c (baseOutputDir args) generatedFilePath
                     fragmentsFilePath names)
              (snd st)\<rparr>)"

definition buildFragmentResolver ::
  "'ty Collaborators \<Rightarrow> PresetFnArgs \<Rightarrow> error + (string \<Rightarrow> DocumentNode \<Rightarrow> ResolvedFragments)" where
  "buildFragmentResolver c args =
     (case buildFragmentRegistry c args of
        Inl e \<Rightarrow> Inl e
      | Inr fragmentRegistry \<Rightarrow> Inr (resolveFragments c args fragmentRegistry))"

subsection \<open>The usage resolver\<close>

fun spreadsOf :: "SelectionNode \<Rightarrow> string list"
  and spreadsOfList :: "SelectionNode list \<Rightarrow> string list" where
  "spreadsOf (Field n sels) = spreadsOfList sels"
| "spreadsOf (FragmentSpread n) = [n]"
| "spreadsOf (InlineFragment sels) = spreadsOfList sels"
| "spreadsOfList [] = []"
| "spreadsOfList (s # ss) = spreadsOf s @ spreadsOfList ss"

fun definitionSpreads :: "DefinitionNode \<Rightarrow> string list" where
  "definitionSpreads (FragmentDefinition f) = spreadsOfList (selectionSet f)"
| "definitionSpreads (OperationDefinition n sels) = spreadsOfList sels"

text \<open>
  Modelled from the spec: \<^verbatim>\<open>extractExternalFragmentsInUse\<close> lives in \<^verbatim>\<open>./utils\<close>, which
  is not among the sources. The spec describes it as a depth-first walk over the
  fragment spreads: a name spread by the document itself gets depth 0, a name reached
  through the body of a registered fragment gets the number of hops, only registered
  names are reported, and the smallest depth wins. The first argument bounds the
  nesting of the walk.
\<close>

fun visitSpreads ::
  "nat \<Rightarrow> FragmentRegistry \<Rightarrow> nat \<Rightarrow> string list \<Rightarrow> (string \<times> nat) list
     \<Rightarrow> (string \<times> nat) list" where
  "visitSpreads 0 reg lvl ns result = result"
| "visitSpreads (Suc k) reg lvl [] result = result"
| "visitSpreads (Suc k) reg lvl (n # ns) result =
     (case map_of reg n of
        None \<Rightarrow> visitSpreads (Suc k) reg lvl ns result
      | Some e \<Rightarrow>
          if (case map_of result n of None \<Rightarrow> True | Some l \<Rightarrow> lvl < l)
          then visitSpreads (Suc k) reg lvl ns
                 (visitSpreads k reg (Suc lvl) (spreadsOfList (selectionSet (node e)))
                    (AList.update n lvl result))
          else visitSpreads (Suc k) reg lvl ns result)"

definition usageResolver :: "DocumentNode \<Rightarrow> FragmentRegistry \<Rightarrow> (string \<times> nat) list" where
  "usageResolver doc reg =
     visitSpreads (Suc (length reg)) reg 0 (concat (map definitionSpreads doc)) []"

subsection \<open>Notions used in the statements\<close>

text \<open>The fragment definitions of a document set, in document order, then definition order,
  each with the location of its document.\<close>

definition allFragments :: "DocumentFile list \<Rightarrow> (string \<times> FragmentDefinitionNode) list" where
  "allFragments docs =
     concat (map (\<lambda>d. map (Pair (location d)) (fragmentDefinitions (document d))) docs)"

text \<open>The registry entry the builder computes for a fragment found at a location.\<close>

definition entryFor ::
  "'ty Collaborators \<Rightarrow> PresetFnArgs \<Rightarrow> string \<Rightarrow> FragmentDefinitionNode
     \<Rightarrow> FragmentRegistryEntry \<Rightarrow> bool" where
  "entryFor c args loc fragment e =
     (case getType c (typeCondition fragment) of
        None \<Rightarrow> False
      | Some schemaType \<Rightarrow>
          getAllFragmentSubTypes c args (map (typeName c) (getPossibleTypes c schemaType))
              (name_value fragment) = Inr (importNames e)
          \<and> filePath e = generateFilePath c loc
          \<and> onType e = typeCondition fragment
          \<and> node e = fragment)"

text \<open>
  The names a scan reports as duplicates: a definition whose serialized form differs from
  the one of the latest earlier definition of the same name. \<open>seen\<close> holds the earlier
  definitions, the latest first.
\<close>

fun duplicateNames ::
  "(FragmentDefinitionNode \<Rightarrow> string) \<Rightarrow> (string \<times> FragmentDefinitionNode) list
     \<Rightarrow> FragmentDefinitionNode list \<Rightarrow> string list" where
  "duplicateNames pr seen [] = []"
| "duplicateNames pr seen (f # fs) =
     (case map_of seen (name_value f) of
        None \<Rightarrow> []
      | Some g \<Rightarrow> if pr f \<noteq> pr g then [name_value f] else [])
     @ duplicateNames pr ((name_value f, f) # seen) fs"

text \<open>The map from fragment files to import names that the planner's loop builds.\<close>

definition fragmentFileImports ::
  "FragmentRegistry \<Rightarrow> (string \<times> nat) list \<Rightarrow> (string \<times> string list) list" where
  "fragmentFileImports fragmentRegistry fragmentsInUse =
     snd (foldl (resolveStep fragmentRegistry) ([], []) fragmentsInUse)"

text \<open>The effect of one step of the planner's loop on the map from fragment files to
  import names.\<close>

definition importStep ::
  "FragmentRegistry \<Rightarrow> (string \<times> string list) list \<Rightarrow> string \<times> nat \<Rightarrow> (string \<times> string list) list" where
  "importStep reg imp u =
     (case (if snd u = 0 then map_of reg (fst u) else None) of
        None \<Rightarrow> imp
      | Some e \<Rightarrow>
          AList.update (filePath e)
            (foldl setAdd (case map_of imp (filePath e) of None \<Rightarrow> [] | Some s \<Rightarrow> s) (importNames e)) imp)"

text \<open>The registry entries of the names used at level 0, in the order of the usage map.\<close>

definition directEntries ::
  "FragmentRegistry \<Rightarrow> (string \<times> nat) list \<Rightarrow> FragmentRegistryEntry list" where
  "directEntries fragmentRegistry fragmentsInUse =
     List.map_filter (\<lambda>u. if snd u = 0 then map_of fragmentRegistry (fst u) else None)
       fragmentsInUse"

text \<open>A plugin key that names one of the document-variable plugins.\<close>

definition docVarKey :: "string \<Rightarrow> bool" where
  "docVarKey key =
     (toLowerCase key \<in> set DOC_VAR_PLUGINS
      \<or> toLowerCase key \<in> set (map (\<lambda>t. ''@graphql-codegen/'' @ t) DOC_VAR_PLUGINS))"

text \<open>A name that a plain object inherits from its prototype.\<close>

definition inheritedName :: "string \<Rightarrow> bool" where
  "inheritedName n = (n = ''__proto__'' \<or> n \<in> set objectPrototypeNames)"

text \<open>The scan over the fragment definitions of all documents as one loop.\<close>

fun registerAll ::
  "'ty Collaborators \<Rightarrow> PresetFnArgs \<Rightarrow> RegistryObject \<times> string list
     \<Rightarrow> (string \<times> FragmentDefinitionNode) list \<Rightarrow> error + RegistryObject \<times> string list" where
  "registerAll c args st [] = Inr st"
| "registerAll c args st (lf # rest) =
     (case registerFragment c args (fst lf) st (snd lf) of
        Inl e \<Rightarrow> Inl e
      | Inr st' \<Rightarrow> registerAll c args st' rest)"

subsection \<open>A small schema and document set\<close>

text \<open>
  Concrete collaborators for the instances below: a schema with the object types
  \<open>User\<close> and \<open>Admin\<close>, the interface \<open>Node\<close> that both implement and the interface
  \<open>Ghost\<close> without implementors; names built by appending the suffix; file paths that
  replace the extension of the location.
\<close>

datatype ExampleType = ObjectType string | InterfaceType string "string list"

fun examplePossibleTypes :: "ExampleType \<Rightarrow> ExampleType list" where
  "examplePossibleTypes (ObjectType n) = [ObjectType n]"
| "examplePossibleTypes (InterfaceType n impls) = map ObjectType impls"

fun exampleTypeName :: "ExampleType \<Rightarrow> string" where
  "exampleTypeName (ObjectType n) = n"
| "exampleTypeName (InterfaceType n impls) = n"

definition exampleSchema :: "(string \<times> ExampleType) list" where
  "exampleSchema =
     [(''User'', ObjectType ''User''),
      (''Admin'', ObjectType ''Admin''),
      (''Node'', InterfaceType ''Node'' [''User'', ''Admin'']),
      (''Ghost'', InterfaceType ''Ghost'' [])]"

fun printSelection :: "SelectionNode \<Rightarrow> string"
  and printSelections :: "SelectionNode list \<Rightarrow> string" where
  "printSelection (Field n sels) = n @ (if sels = [] then [] else '' '' @ printSelections sels)"
| "printSelection (FragmentSpread n) = ''...'' @ n"
| "printSelection (InlineFragment sels) = ''... '' @ printSelections sels"
| "printSelections [] = ''{}''"
| "printSelections (s # ss) = ''{ '' @ printSelection s @ '' '' @ printSelections ss @ ''}''"

definition examplePrint :: "FragmentDefinitionNode \<Rightarrow> string" where
  "examplePrint f =
     ''fragment '' @ name_value f @ '' on '' @ typeCondition f @ '' ''
       @ printSelections (selectionSet f)"

definition exampleCollaborators :: "ExampleType Collaborators" where
  \<open>exampleCollaborators =
     \<lparr>getType = map_of exampleSchema,
      getPossibleTypes = examplePossibleTypes,
      typeName = exampleTypeName,
      print = examplePrint,
      getFragmentVariableName = (\<lambda>n. n @ ''FragmentDoc''),
      getFragmentSuffix = (\<lambda>n. ''Fragment''),
      convertName = (\<lambda>n useTypesPrefix suffix. n @ suffix),
      generateFilePath = (\<lambda>loc. takeWhile (\<lambda>ch. ch \<noteq> CHR ''.'') loc @ ''.generated''),
      generateImportStatement = (\<lambda>base rel path names.
         ''import { '' @ join '', '' names @ '' } from "'' @ path @ ''"''),
      extractExternalFragmentsInUse = usageResolver\<rparr>\<close>

definition exampleArgs :: "ConfiguredPlugin list \<Rightarrow> DocumentFile list \<Rightarrow> PresetFnArgs" where
  "exampleArgs ps docs =
     \<lparr>documents = docs, config = \<lparr>documentMode = None\<rparr>, plugins = ps,
      baseOutputDir = ''out''\<rparr>"

definition exampleFragment :: "string \<Rightarrow> string \<Rightarrow> string list \<Rightarrow> FragmentDefinitionNode" where
  "exampleFragment n t fieldNames =
     \<lparr>name_value = n, typeCondition = t, selectionSet = map (\<lambda>f. Field f []) fieldNames\<rparr>"

definition documentFile :: "string \<Rightarrow> DefinitionNode list \<Rightarrow> DocumentFile" where
  "documentFile loc defs = \<lparr>location = loc, document = defs\<rparr>"

text \<open>The documents \<^verbatim>\<open>A.graphql: fragment F on User {id}\<close> and
  \<^verbatim>\<open>B.graphql: query Q { user { ...F } }\<close>.\<close>

definition docA :: DocumentFile where
  "docA = documentFile ''A.graphql'' [FragmentDefinition (exampleFragment ''F'' ''User'' [''id''])]"

definition docB :: DocumentFile where
  "docB = documentFile ''B.graphql''
            [OperationDefinition ''Q'' [Field ''user'' [FragmentSpread ''F'']]]"

text \<open>The collaborators with a usage resolver that returns a given usage map.\<close>

definition fixedUsage :: "(string \<times> nat) list \<Rightarrow> ExampleType Collaborators" where
  "fixedUsage fragmentsInUse =
     exampleCollaborators\<lparr>extractExternalFragmentsInUse := (\<lambda>doc reg. fragmentsInUse)\<rparr>"

text \<open>A registry in which two fragments of one file share an import name.\<close>

definition sharedFileRegistry :: FragmentRegistry where
  "sharedFileRegistry =
     [(''F'', \<lparr>filePath = ''A.generated'', importNames = [''X'', ''Y''], onType = ''User'',
              node = exampleFragment ''F'' ''User'' [''id'']\<rparr>),
      (''G'', \<lparr>filePath = ''A.generated'', importNames = [''Y'', ''Z''], onType = ''User'',
              node = exampleFragment ''G'' ''User'' [''name'']\<rparr>),
      (''H'', \<lparr>filePath = ''C.generated'', importNames = [''HFragment''], onType = ''Admin'',
              node = exampleFragment ''H'' ''Admin'' [''id'']\<rparr>)]"

text \<open>Two fragments of one file, the first on an interface without implementors.\<close>

definition ghostDocuments :: "DocumentFile list" where
  "ghostDocuments =
     [documentFile ''A.graphql''
        [FragmentDefinition (exampleFragment ''F'' ''Ghost'' [''id'']),
         FragmentDefinition (exampleFragment ''G'' ''User'' [''id''])],
      documentFile ''B.graphql''
        [OperationDefinition ''Q'' [Field ''user'' [FragmentSpread ''F'', FragmentSpread ''G'']]]]"

definition ghostEntry :: FragmentRegistryEntry where
  "ghostEntry =
     \<lparr>filePath = ''A.generated'', importNames = [], onType = ''Ghost'',
      node = exampleFragment ''F'' ''Ghost'' [''id'']\<rparr>"

definition ghostQuery :: DocumentNode where
  "ghostQuery =
     [OperationDefinition ''Q'' [Field ''user'' [FragmentSpread ''F'', FragmentSpread ''G'']]]"

definition ghostRegistry :: FragmentRegistry where
  "ghostRegistry =
     [(''F'', \<lparr>filePath = ''A.generated'', importNames = [], onType = ''Ghost'',
              node = exampleFragment ''F'' ''Ghost'' [''id'']\<rparr>),
      (''G'', \<lparr>filePath = ''A.generated'', importNames = [''GFragment''], onType = ''User'',
              node = exampleFragment ''G'' ''User'' [''id'']\<rparr>)]"

text \<open>The entry of a fragment \<open>N\<close> on the interface \<open>Node\<close>, with a document-variable
  plugin configured.\<close>

definition nodeEntry :: FragmentRegistryEntry where
  "nodeEntry =
     \<lparr>filePath = ''A.generated'',
      importNames = [''NFragmentDoc'', ''N_User_Fragment'', ''N_Admin_Fragment''],
      onType = ''Node'', node = exampleFragment ''N'' ''Node'' [''id'']\<rparr>"

text \<open>Two conflicting names, each defined in two documents, and a later fragment on a
  type the schema does not have.\<close>

definition conflictDocuments :: "DocumentFile list" where
  "conflictDocuments =
     [documentFile ''A.graphql''
        [FragmentDefinition (exampleFragment ''Dup'' ''User'' [''id'']),
         FragmentDefinition (exampleFragment ''Other'' ''User'' [''id''])],
      documentFile ''B.graphql''
        [FragmentDefinition (exampleFragment ''Dup'' ''User'' [''id'', ''name'']),
         FragmentDefinition (exampleFragment ''Other'' ''Admin'' [''id''])],
      documentFile ''C.graphql''
        [FragmentDefinition (exampleFragment ''Fine'' ''User'' [''id''])]]"

definition lateUnknownDocument :: DocumentFile where
  "lateUnknownDocument =
     documentFile ''D.graphql''
       [FragmentDefinition (exampleFragment ''Late'' ''Missing'' [''id'']),
        FragmentDefinition (exampleFragment ''Later'' ''Gone'' [''id''])]"

text \<open>The same fragment in two documents.\<close>

definition identicalDocuments :: "DocumentFile list" where
  "identicalDocuments =
     [documentFile ''A.graphql'' [FragmentDefinition (exampleFragment ''Dup'' ''User'' [''id''])],
      documentFile ''B.graphql'' [FragmentDefinition (exampleFragment ''Dup'' ''User'' [''id''])]]"

text \<open>The entry of the fragment \<open>Dup\<close> of these documents, for a given file path.\<close>

definition dupEntry :: "string \<Rightarrow> FragmentRegistryEntry" where
  "dupEntry path =
     \<lparr>filePath = path, importNames = [''DupFragment''], onType = ''User'',
      node = exampleFragment ''Dup'' ''User'' [''id'']\<rparr>"

text \<open>The entry of the fragment \<open>F\<close> of \<^verbatim>\<open>A.graphql\<close>, for given import names.\<close>

definition scenarioEntry :: "string list \<Rightarrow> FragmentRegistryEntry" where
  "scenarioEntry names =
     \<lparr>filePath = ''A.generated'', importNames = names, onType = ''User'',
      node = exampleFragment ''F'' ''User'' [''id'']\<rparr>"

section \<open>Properties\<close>

subsection \<open>The planner's loop\<close>

lemma resolveStep_fst:
  "fst (resolveStep reg st u) =
     fst st @ (case map_of reg (fst u) of
                 None \<Rightarrow> []
               | Some e \<Rightarrow> [\<lparr>level = snd u, isExternal = True, name = fst u,
                              fragmentOnType = onType e, fragmentNode = node e\<rparr>])"
  by (simp add: resolveStep_def Let_def split: option.splits)

lemma foldl_resolveStep_fst:
  "fst (foldl (resolveStep reg) st dm) =
     fst st @ concat (map (\<lambda>u. case map_of reg (fst u) of
                 None \<Rightarrow> []
               | Some e \<Rightarrow> [\<lparr>level = snd u, isExternal = True, name = fst u,
                              fragmentOnType = onType e, fragmentNode = node e\<rparr>]) dm)"
  by (induction dm arbitrary: st) (simp_all add: resolveStep_fst)

lemma resolveStep_skip:
  "map_of reg (fst u) = None \<Longrightarrow> resolveStep reg st u = st"
  by (simp add: resolveStep_def)

lemma foldl_resolveStep_filter_registered:
  "foldl (resolveStep reg) st (filter (\<lambda>u. map_of reg (fst u) \<noteq> None) dm) =
   foldl (resolveStep reg) st dm"
  by (induction dm arbitrary: st) (auto simp: resolveStep_skip)

lemma foldl_resolveStep_remove:
  "map_of reg n = None \<Longrightarrow>
   foldl (resolveStep reg) st (filter (\<lambda>u. fst u \<noteq> n) dm) = foldl (resolveStep reg) st dm"
  by (induction dm arbitrary: st) (auto simp: resolveStep_skip)

lemma resolveStep_snd: "snd (resolveStep reg st u) = importStep reg (snd st) u"
  by (simp add: resolveStep_def importStep_def Let_def newSet_def split: option.splits)

lemma foldl_resolveStep_snd:
  "snd (foldl (resolveStep reg) st dm) = foldl (importStep reg) (snd st) dm"
  by (induction dm arbitrary: st) (simp_all add: resolveStep_snd)

lemma fragmentFileImports_foldl:
  "fragmentFileImports reg dm = foldl (importStep reg) [] dm"
  by (simp add: fragmentFileImports_def foldl_resolveStep_snd)

lemma foldl_importStep_direct:
  "foldl (importStep reg) imp (filter (\<lambda>u. snd u = 0) dm) = foldl (importStep reg) imp dm"
  by (induction dm arbitrary: imp) (auto simp: importStep_def)

lemma directEntries_Nil [simp]: "directEntries reg [] = []"
  by (simp add: directEntries_def)

lemma directEntries_Cons:
  "directEntries reg (u # dm) =
     (case (if snd u = 0 then map_of reg (fst u) else None) of
        None \<Rightarrow> directEntries reg dm
      | Some e \<Rightarrow> e # directEntries reg dm)"
  by (simp add: directEntries_def split: option.splits)

lemma foldl_setAdd_append:
  "foldl setAdd (foldl setAdd s xs) ys = foldl setAdd s (xs @ ys)"
  by simp

lemma map_of_foldl_importStep:
  "map_of (foldl (importStep reg) imp dm) p =
     (if p \<in> filePath ` set (directEntries reg dm)
      then Some (foldl setAdd (case map_of imp p of None \<Rightarrow> [] | Some s \<Rightarrow> s)
                   (concat (map importNames (filter (\<lambda>e. filePath e = p) (directEntries reg dm)))))
      else map_of imp p)"
proof (induction dm arbitrary: imp)
  case Nil
  then show ?case by simp
next
  case (Cons u dm)
  show ?case
  proof (cases "if snd u = 0 then map_of reg (fst u) else None")
    case None
    then have "importStep reg imp u = imp" by (simp add: importStep_def)
    with None Cons.IH [of imp] show ?thesis by (simp add: directEntries_Cons)
  next
    case (Some e)
    let ?s0 = "case map_of imp (filePath e) of None \<Rightarrow> [] | Some s \<Rightarrow> s"
    have step: "importStep reg imp u = AList.update (filePath e) (foldl setAdd ?s0 (importNames e)) imp"
      using Some by (simp add: importStep_def)
    have de: "directEntries reg (u # dm) = e # directEntries reg dm"
      using Some by (simp add: directEntries_Cons)
    show ?thesis
    proof (cases "filePath e = p")
      case True
      have none: "filter (\<lambda>x. filePath x = p) (directEntries reg dm) = []"
        if "p \<notin> filePath ` set (directEntries reg dm)"
        using that by (auto simp: filter_empty_conv)
      from True show ?thesis
        using Cons.IH [of "importStep reg imp u"] none
        by (auto simp add: step de update_conv')
    next
      case False
      then show ?thesis
        using Cons.IH [of "importStep reg imp u"] 
        by (auto simp add: step de update_conv')
    qed
  qed
qed

lemma set_foldl_setAdd: "set (foldl setAdd s xs) = set s \<union> set xs"
  by (induction xs arbitrary: s) (auto simp: setAdd_def)

lemma distinct_foldl_setAdd: "distinct s \<Longrightarrow> distinct (foldl setAdd s xs)"
  by (induction xs arbitrary: s) (auto simp: setAdd_def)

lemma set_newSet: "set (newSet xs) = set xs"
  by (simp add: newSet_def set_foldl_setAdd)

lemma distinct_newSet: "distinct (newSet xs)"
  by (simp add: newSet_def distinct_foldl_setAdd)

lemma map_of_fragmentFileImports:
  "map_of (fragmentFileImports reg dm) p =
     (if p \<in> filePath ` set (directEntries reg dm)
      then Some (newSet (concat (map importNames (filter (\<lambda>e. filePath e = p) (directEntries reg dm)))))
      else None)"
  by (simp add: fragmentFileImports_foldl map_of_foldl_importStep newSet_def)

lemma distinct_importStep:
  "distinct (map fst imp) \<Longrightarrow> distinct (map fst (importStep reg imp u))"
  by (simp add: importStep_def distinct_update split: option.splits)

lemma distinct_foldl_importStep:
  "distinct (map fst imp) \<Longrightarrow> distinct (map fst (foldl (importStep reg) imp dm))"
  by (induction dm arbitrary: imp) (simp_all add: distinct_importStep)

lemma distinct_fragmentFileImports: "distinct (map fst (fragmentFileImports reg dm))"
  by (simp add: fragmentFileImports_foldl distinct_foldl_importStep)

lemma resolveFragments_statements:
  "fragmentImportStatements (resolveFragments c args reg path doc) =
     map (\<lambda>(p, names). generateImportStatement c (baseOutputDir args) path p names)
       (fragmentFileImports reg (extractExternalFragmentsInUse c doc reg))"
  by (simp add: resolveFragments_def fragmentFileImports_def Let_def)

lemma resolveFragments_external:
  "externalFragments (resolveFragments c args reg path doc) =
     concat (map (\<lambda>u. case map_of reg (fst u) of
                 None \<Rightarrow> []
               | Some e \<Rightarrow> [\<lparr>level = snd u, isExternal = True, name = fst u,
                              fragmentOnType = onType e, fragmentNode = node e\<rparr>])
       (extractExternalFragmentsInUse c doc reg))"
  by (simp add: resolveFragments_def Let_def foldl_resolveStep_fst)


text \<open>
  C9: the external fragments of a generated file are obtained by going through the usage
  map in its order and emitting, for each name the registry knows, one element with
  that pair's level, \<open>isExternal\<close> set, the name, and the entry's type and definition.
  Their names are the names of the usage map, in its order, restricted to the
  registered ones.
\<close>

theorem externalFragments_in_usage_order:
  "externalFragments (resolveFragments c args reg path doc) =
     List.map_filter
       (\<lambda>u. map_option
               (\<lambda>e. \<lparr>level = snd u, isExternal = True, name = fst u,
                      fragmentOnType = onType e, fragmentNode = node e\<rparr>)
               (map_of reg (fst u)))
       (extractExternalFragmentsInUse c doc reg)
   \<and> map name (externalFragments (resolveFragments c args reg path doc)) =
       filter (\<lambda>n. map_of reg n \<noteq> None) (map fst (extractExternalFragmentsInUse c doc reg))"
proof -
  have a: "concat (map (\<lambda>u. case map_of reg (fst u) of
                 None \<Rightarrow> []
               | Some e \<Rightarrow> [\<lparr>level = snd u, isExternal = True, name = fst u,
                              fragmentOnType = onType e, fragmentNode = node e\<rparr>]) dm) =
        List.map_filter
       (\<lambda>u. map_option
               (\<lambda>e. \<lparr>level = snd u, isExternal = True, name = fst u,
                      fragmentOnType = onType e, fragmentNode = node e\<rparr>)
               (map_of reg (fst u))) dm" for dm
    by (induction dm) (auto split: option.splits)
  have b: "map name (List.map_filter
       (\<lambda>u. map_option
               (\<lambda>e. \<lparr>level = snd u, isExternal = True, name = fst u,
                      fragmentOnType = onType e, fragmentNode = node e\<rparr>)
               (map_of reg (fst u))) dm) = filter (\<lambda>n. map_of reg n \<noteq> None) (map fst dm)" for dm
    by (induction dm) (auto split: option.splits)
  show ?thesis
    by (simp add: resolveFragments_external a b)
qed

theorem externalFragments_in_usage_order_witness:
  "externalFragments
     (resolveFragments (fixedUsage [(''G'', 0), (''Q'', 0), (''H'', 1), (''F'', 0)])
        (exampleArgs [] []) sharedFileRegistry ''B.generated'' []) =
   [\<lparr>level = 0, isExternal = True, name = ''G'', fragmentOnType = ''User'',
     fragmentNode = exampleFragment ''G'' ''User'' [''name'']\<rparr>,
    \<lparr>level = 1, isExternal = True, name = ''H'', fragmentOnType = ''Admin'',
     fragmentNode = exampleFragment ''H'' ''Admin'' [''id'']\<rparr>,
    \<lparr>level = 0, isExternal = True, name = ''F'', fragmentOnType = ''User'',
     fragmentNode = exampleFragment ''F'' ''User'' [''id'']\<rparr>]"
  using externalFragments_in_usage_order
    [of "fixedUsage [(''G'', 0), (''Q'', 0), (''H'', 1), (''F'', 0)]" "exampleArgs [] []"
        sharedFileRegistry "''B.generated''" "[]"]
  by (simp add: fixedUsage_def sharedFileRegistry_def exampleCollaborators_def)

text \<open>
  C8: a name of the usage map that the registry does not know is skipped. The planner
  is a total function without an error result; the name is not among the external
  fragments, and the whole result is the one obtained when the name is removed from
  the usage map, so it reaches no import group and no import statement.
\<close>

theorem unregistered_names_skipped:
  assumes "map_of reg n = None"
  shows "n \<notin> name ` set (externalFragments (resolveFragments c args reg path doc))
    \<and> resolveFragments
         (c\<lparr>extractExternalFragmentsInUse :=
              (\<lambda>d r. filter (\<lambda>u. fst u \<noteq> n) (extractExternalFragmentsInUse c d r))\<rparr>)
         args reg path doc
       = resolveFragments c args reg path doc"
proof -
  have "n \<notin> name ` set (externalFragments (resolveFragments c args reg path doc))"
    using assms by (auto simp: resolveFragments_external split: option.splits)
  moreover have "resolveFragments
         (c\<lparr>extractExternalFragmentsInUse :=
              (\<lambda>d r. filter (\<lambda>u. fst u \<noteq> n) (extractExternalFragmentsInUse c d r))\<rparr>)
         args reg path doc
       = resolveFragments c args reg path doc"
    using assms by (simp add: resolveFragments_def Let_def foldl_resolveStep_remove)
  ultimately show ?thesis by simp
qed

theorem unregistered_names_skipped_witness:
  "map_of sharedFileRegistry ''Q'' = None
   \<and> ''Q'' \<notin> name ` set (externalFragments
        (resolveFragments (fixedUsage [(''G'', 0), (''Q'', 0), (''H'', 1), (''F'', 0)])
           (exampleArgs [] []) sharedFileRegistry ''B.generated'' []))
   \<and> resolveFragments (fixedUsage [(''G'', 0), (''H'', 1), (''F'', 0)])
           (exampleArgs [] []) sharedFileRegistry ''B.generated'' []
     = resolveFragments (fixedUsage [(''G'', 0), (''Q'', 0), (''H'', 1), (''F'', 0)])
           (exampleArgs [] []) sharedFileRegistry ''B.generated'' []"
proof -
  have h: "map_of sharedFileRegistry ''Q'' = None"
    by (simp add: sharedFileRegistry_def)
  have e: "(fixedUsage [(''G'', 0), (''Q'', 0), (''H'', 1), (''F'', 0)])
         \<lparr>extractExternalFragmentsInUse :=
              (\<lambda>d r. filter (\<lambda>u. fst u \<noteq> ''Q'')
                 (extractExternalFragmentsInUse (fixedUsage [(''G'', 0), (''Q'', 0), (''H'', 1), (''F'', 0)]) d r))\<rparr>
       = fixedUsage [(''G'', 0), (''H'', 1), (''F'', 0)]"
    by (simp add: fixedUsage_def)
  show ?thesis
    using h unregistered_names_skipped [OF h,
        of "fixedUsage [(''G'', 0), (''Q'', 0), (''H'', 1), (''F'', 0)]" "exampleArgs [] []"
           "''B.generated''" "[]"]
    unfolding e by simp
qed

lemma set_directEntries:
  "set (directEntries reg dm) = {e. \<exists>u \<in> set dm. snd u = 0 \<and> map_of reg (fst u) = Some e}"
  by (induction dm) (auto simp: directEntries_Cons split: option.splits if_splits)

text \<open>
  C7: the import group of a file path exists exactly when some name used at level 0 has a
  registry entry with that path, and then holds the import names of those entries, each
  once (a \<^verbatim>\<open>Set\<close>). Pairs with a level above 0 do not change the groups: the groups
  are those of the usage map restricted to level 0. Every registered name with a level
  above 0 is among the external fragments. Each group gives one import statement.
\<close>

theorem import_groups_from_direct_use:
  assumes "fragmentsInUse = extractExternalFragmentsInUse c doc reg"
  shows "fragmentImportStatements (resolveFragments c args reg path doc) =
           map (\<lambda>(p, names). generateImportStatement c (baseOutputDir args) path p names)
             (fragmentFileImports reg fragmentsInUse)
    \<and> distinct (map fst (fragmentFileImports reg fragmentsInUse))
    \<and> map_of (fragmentFileImports reg fragmentsInUse) p =
        (if p \<in> filePath ` set (directEntries reg fragmentsInUse)
         then Some (newSet (concat (map importNames
                      (filter (\<lambda>e. filePath e = p) (directEntries reg fragmentsInUse)))))
         else None)
    \<and> (\<forall>names. map_of (fragmentFileImports reg fragmentsInUse) p = Some names \<longrightarrow>
          distinct names
          \<and> set names = (\<Union>e \<in> {e \<in> set (directEntries reg fragmentsInUse). filePath e = p}.
                           set (importNames e)))
    \<and> fragmentFileImports reg fragmentsInUse =
        fragmentFileImports reg (filter (\<lambda>u. snd u = 0) fragmentsInUse)
    \<and> (\<forall>u \<in> set fragmentsInUse. 0 < snd u \<and> map_of reg (fst u) \<noteq> None \<longrightarrow>
          fst u \<in> name ` set (externalFragments (resolveFragments c args reg path doc)))"
proof -
  have 1: "fragmentImportStatements (resolveFragments c args reg path doc) =
           map (\<lambda>(p, names). generateImportStatement c (baseOutputDir args) path p names)
             (fragmentFileImports reg fragmentsInUse)"
    by (simp add: assms resolveFragments_statements)
  have 2: "distinct (map fst (fragmentFileImports reg fragmentsInUse))"
    by (rule distinct_fragmentFileImports)
  have 3: "map_of (fragmentFileImports reg fragmentsInUse) p =
        (if p \<in> filePath ` set (directEntries reg fragmentsInUse)
         then Some (newSet (concat (map importNames
                      (filter (\<lambda>e. filePath e = p) (directEntries reg fragmentsInUse)))))
         else None)"
    by (rule map_of_fragmentFileImports)
  have 4: "distinct names
          \<and> set names = (\<Union>e \<in> {e \<in> set (directEntries reg fragmentsInUse). filePath e = p}.
                           set (importNames e))"
    if "map_of (fragmentFileImports reg fragmentsInUse) p = Some names" for names
    using that unfolding 3 by (auto simp: distinct_newSet set_newSet split: if_splits)
  have 5: "fragmentFileImports reg fragmentsInUse =
        fragmentFileImports reg (filter (\<lambda>u. snd u = 0) fragmentsInUse)"
    by (simp add: fragmentFileImports_foldl foldl_importStep_direct)
  have 6: "fst u \<in> name ` set (externalFragments (resolveFragments c args reg path doc))"
    if "u \<in> set fragmentsInUse" "0 < snd u \<and> map_of reg (fst u) \<noteq> None" for u
  proof -
    from that obtain e where e: "map_of reg (fst u) = Some e" by auto
    have "\<lparr>level = snd u, isExternal = True, name = fst u,
            fragmentOnType = onType e, fragmentNode = node e\<rparr>
          \<in> set (externalFragments (resolveFragments c args reg path doc))"
      using that(1) e unfolding resolveFragments_external assms [symmetric]
      by (force split: option.splits)
    then show ?thesis by force
  qed
  show ?thesis
    apply (intro conjI allI impI ballI)
    subgoal by (rule 1)
    subgoal by (rule 2)
    subgoal by (rule 3)
    subgoal using 4 by blast
    subgoal using 4 by blast
    subgoal by (rule 5)
    subgoal for u using 6 [of u] by blast
    done
qed

theorem import_groups_from_direct_use_witness:
  "map_of (fragmentFileImports sharedFileRegistry [(''G'', 0), (''Q'', 0), (''H'', 1), (''F'', 0)])
      ''A.generated'' = Some [''Y'', ''Z'', ''X'']
   \<and> distinct [''Y'', ''Z'', ''X'']
   \<and> (''H'', 1) \<in> set [(''G'', 0), (''Q'', 0), (''H'', 1), (''F'', 0::nat)]
   \<and> map_of sharedFileRegistry ''H'' \<noteq> None
   \<and> ''H'' \<in> name ` set (externalFragments
        (resolveFragments (fixedUsage [(''G'', 0), (''Q'', 0), (''H'', 1), (''F'', 0)])
           (exampleArgs [] []) sharedFileRegistry ''B.generated'' []))
   \<and> map_of (fragmentFileImports sharedFileRegistry [(''G'', 0), (''Q'', 0), (''H'', 1), (''F'', 0)])
      ''C.generated'' = None
   \<and> fragmentImportStatements
        (resolveFragments (fixedUsage [(''G'', 0), (''Q'', 0), (''H'', 1), (''F'', 0)])
           (exampleArgs [] []) sharedFileRegistry ''B.generated'' []) =
      [generateImportStatement exampleCollaborators ''out'' ''B.generated'' ''A.generated''
         [''Y'', ''Z'', ''X'']]"
proof -
  let ?dm = "[(''G'', 0), (''Q'', 0), (''H'', 1), (''F'', 0::nat)]"
  have h: "?dm = extractExternalFragmentsInUse (fixedUsage ?dm) [] sharedFileRegistry"
    by (simp add: fixedUsage_def)
  have a: "map_of (fragmentFileImports sharedFileRegistry ?dm) ''A.generated'' = Some [''Y'', ''Z'', ''X'']"
    by code_simp
  have b: "map_of sharedFileRegistry ''H'' \<noteq> None"
    by (simp add: sharedFileRegistry_def)
  have c: "map_of (fragmentFileImports sharedFileRegistry ?dm) ''C.generated'' = None"
    by code_simp
  have d: "fragmentFileImports sharedFileRegistry ?dm = [(''A.generated'', [''Y'', ''Z'', ''X''])]"
    by code_simp
  have g: "generateImportStatement (fixedUsage ?dm) = generateImportStatement exampleCollaborators"
    "baseOutputDir (exampleArgs [] []) = ''out''"
    by (simp_all add: fixedUsage_def exampleArgs_def)
  note t = import_groups_from_direct_use [OF h, of "exampleArgs [] []" "''B.generated''" "''A.generated''"]
  note t1 = t [THEN conjunct1]
  note t6 = t [THEN conjunct2, THEN conjunct2, THEN conjunct2, THEN conjunct2, THEN conjunct2]
  have 1: "distinct [''Y'', ''Z'', ''X'']" by simp
  have 2: "(''H'', 1) \<in> set ?dm" by simp
  have 3: "''H'' \<in> name ` set (externalFragments
        (resolveFragments (fixedUsage ?dm) (exampleArgs [] []) sharedFileRegistry ''B.generated'' []))"
    using t6 [rule_format, OF 2] b by simp
  have 4: "fragmentImportStatements
        (resolveFragments (fixedUsage ?dm) (exampleArgs [] []) sharedFileRegistry ''B.generated'' []) =
      [generateImportStatement exampleCollaborators ''out'' ''B.generated'' ''A.generated''
         [''Y'', ''Z'', ''X'']]"
    unfolding t1 d g by simp
  from a 1 2 b 3 c 4 show ?thesis by (intro conjI)
qed

lemma newSet_first_occurrences: "newSet xs = rev (remdups (rev xs))"
proof (induction xs rule: rev_induct)
  case Nil
  then show ?case by (simp add: newSet_def)
next
  case (snoc x xs)
  have "newSet (xs @ [x]) = setAdd (newSet xs) x"
    by (simp add: newSet_def)
  with snoc show ?case
    by (simp add: setAdd_def)
qed

lemma filter_distinct_key:
  assumes "distinct (map fst xs)" and "map_of xs k = Some v"
  shows "filter (\<lambda>g. fst g = k) xs = [(k, v)]"
  using assms
proof (induction xs)
  case Nil
  then show ?case by simp
next
  case (Cons a xs)
  show ?case
  proof (cases "fst a = k")
    case True
    with Cons.prems have "a = (k, v)" by (cases a) simp
    moreover from True Cons.prems(1) have "k \<notin> fst ` set xs"
      by simp
    then have "filter (\<lambda>g. fst g = k) xs = []"
      unfolding filter_empty_conv by force
    ultimately show ?thesis by simp
  next
    case False
    with Cons show ?thesis by (cases a) simp
  qed
qed

text \<open>
  C10, as the code has it: the import statements are generated one for each import
  group, in the order of the groups, and a registered fragment used at level 0 has
  exactly one group for the file path of its entry. The names of that group are the
  import names of all entries used at level 0 that share the path, each once, in the
  order of their first occurrence. They are empty when each of these entries has no
  import names; the generator is then still called, once, with the empty sequence.
\<close>

theorem import_group_for_direct_fragment:
  assumes "fragmentsInUse = extractExternalFragmentsInUse c doc reg"
    and "(n, 0) \<in> set fragmentsInUse"
    and "map_of reg n = Some e"
    and "names = rev (remdups (rev (concat (map importNames
            (filter (\<lambda>x. filePath x = filePath e) (directEntries reg fragmentsInUse))))))"
  shows "fragmentImportStatements (resolveFragments c args reg path doc) =
           map (\<lambda>g. generateImportStatement c (baseOutputDir args) path (fst g) (snd g))
             (fragmentFileImports reg fragmentsInUse)
    \<and> filter (\<lambda>g. fst g = filePath e) (fragmentFileImports reg fragmentsInUse)
        = [(filePath e, names)]
    \<and> distinct names
    \<and> set names = (\<Union>x \<in> {x \<in> set (directEntries reg fragmentsInUse). filePath x = filePath e}.
                     set (importNames x))
    \<and> ((\<forall>x \<in> set (directEntries reg fragmentsInUse).
           filePath x = filePath e \<longrightarrow> importNames x = []) \<longrightarrow> names = [])"
proof -
  have 1: "fragmentImportStatements (resolveFragments c args reg path doc) =
           map (\<lambda>g. generateImportStatement c (baseOutputDir args) path (fst g) (snd g))
             (fragmentFileImports reg fragmentsInUse)"
    by (simp add: assms(1) resolveFragments_statements case_prod_beta)
  have "e \<in> set (directEntries reg fragmentsInUse)"
    using assms(2,3) by (force simp: set_directEntries)
  then have grp: "map_of (fragmentFileImports reg fragmentsInUse) (filePath e) = Some names"
    by (auto simp: map_of_fragmentFileImports assms(4) newSet_first_occurrences)
  have 2: "filter (\<lambda>g. fst g = filePath e) (fragmentFileImports reg fragmentsInUse)
        = [(filePath e, names)]"
    by (rule filter_distinct_key [OF distinct_fragmentFileImports grp])
  have 3: "distinct names"
    unfolding assms(4) by simp
  have 4: "set names = (\<Union>x \<in> {x \<in> set (directEntries reg fragmentsInUse). filePath x = filePath e}.
                     set (importNames x))"
    unfolding assms(4) by auto
  have 5: "names = []"
    if "\<forall>x \<in> set (directEntries reg fragmentsInUse). filePath x = filePath e \<longrightarrow> importNames x = []"
  proof -
    have cc: "concat (map importNames
            (filter (\<lambda>x. filePath x = filePath e) (directEntries reg fragmentsInUse))) = []"
      using that by auto
    show ?thesis unfolding assms(4) cc by simp
  qed
  from 1 2 3 4 5 show ?thesis by (intro conjI impI)
qed

theorem import_group_for_direct_fragment_witness:
  "(''F'', 0) \<in> set (extractExternalFragmentsInUse exampleCollaborators ghostQuery [(''F'', ghostEntry)])
   \<and> map_of [(''F'', ghostEntry)] ''F'' = Some ghostEntry
   \<and> importNames ghostEntry = []
   \<and> filter (\<lambda>g. fst g = ''A.generated'') (fragmentFileImports [(''F'', ghostEntry)] [(''F'', 0)])
       = [(''A.generated'', [])]
   \<and> fragmentImportStatements
         (resolveFragments exampleCollaborators (exampleArgs [] [])
            [(''F'', ghostEntry)] ''B.generated'' ghostQuery)
       = [generateImportStatement exampleCollaborators ''out'' ''B.generated'' ''A.generated'' []]"
proof -
  have h1: "[(''F'', 0)] =
      extractExternalFragmentsInUse exampleCollaborators ghostQuery [(''F'', ghostEntry)]"
    by code_simp
  have h2: "(''F'', 0) \<in> set [(''F'', 0::nat)]"
    by simp
  have h3: "map_of [(''F'', ghostEntry)] ''F'' = Some ghostEntry"
    by simp
  have h4: "[] = rev (remdups (rev (concat (map importNames
            (filter (\<lambda>x. filePath x = filePath ghostEntry)
               (directEntries [(''F'', ghostEntry)] [(''F'', 0)]))))))"
    by code_simp
  have p: "filePath ghostEntry = ''A.generated''" "importNames ghostEntry = []"
    "baseOutputDir (exampleArgs [] []) = ''out''"
    by (simp_all add: ghostEntry_def exampleArgs_def)
  have g: "fragmentFileImports [(''F'', ghostEntry)] [(''F'', 0)] = [(''A.generated'', [])]"
    by code_simp
  note t = import_group_for_direct_fragment [OF h1 h2 h3 h4, of "exampleArgs [] []" "''B.generated''",
      unfolded p]
  note t1 = t [THEN conjunct1, unfolded g, simplified]
  note t2 = t [THEN conjunct2, THEN conjunct1]
  have i: "(''F'', 0) \<in> set (extractExternalFragmentsInUse exampleCollaborators ghostQuery
             [(''F'', ghostEntry)])"
    unfolding h1 [symmetric] by simp
  from i h3 p(2) t2 t1 show ?thesis by (intro conjI)
qed

text \<open>
  C10 as stated fails when another fragment of the same file is used at level 0: the
  group of the file then holds that fragment's names, and the generator is never called
  with an empty sequence.
\<close>

theorem empty_import_names_counterexample:
  "buildFragmentRegistry exampleCollaborators (exampleArgs [[''typescript'']] ghostDocuments)
     = Inr ghostRegistry
   \<and> map_of ghostRegistry ''F'' = Some ghostEntry
   \<and> importNames ghostEntry = []
   \<and> extractExternalFragmentsInUse (fixedUsage [(''F'', 0), (''G'', 0)]) ghostQuery ghostRegistry
       = [(''F'', 0), (''G'', 0)]
   \<and> fragmentImportStatements
        (resolveFragments (fixedUsage [(''F'', 0), (''G'', 0)])
           (exampleArgs [[''typescript'']] ghostDocuments) ghostRegistry ''B.generated'' ghostQuery)
       = [generateImportStatement exampleCollaborators ''out'' ''B.generated'' ''A.generated''
            [''GFragment'']]
   \<and> generateImportStatement exampleCollaborators ''out'' ''B.generated'' ''A.generated'' []
       \<notin> set (fragmentImportStatements
        (resolveFragments (fixedUsage [(''F'', 0), (''G'', 0)])
           (exampleArgs [[''typescript'']] ghostDocuments) ghostRegistry ''B.generated'' ghostQuery))"
  by code_simp

subsection \<open>Import names\<close>

lemma foldl_push: "foldl (\<lambda>acc x. acc @ [f x]) s xs = s @ map f xs"
  by (induction xs arbitrary: s) simp_all

lemma getAllFragmentSubTypes_Inr:
  assumes "isUsingDocVarPlugin (plugins args) = Inr b"
  shows "getAllFragmentSubTypes c args pts nm =
     Inr ((if b \<and> (case documentMode (config args) of None \<Rightarrow> graphQLTag | Some m \<Rightarrow> m) \<noteq> documentNode
              \<and> (case documentMode (config args) of None \<Rightarrow> graphQLTag | Some m \<Rightarrow> m) \<noteq> external
              \<and> (case documentMode (config args) of None \<Rightarrow> graphQLTag | Some m \<Rightarrow> m) \<noteq> documentNodeImportFragments
           then [getFragmentVariableName c nm] else [])
          @ (if length pts = 1 then [convertName c nm True (getFragmentSuffix c nm)]
             else map (\<lambda>tn. convertName c nm True (''_'' @ tn @ ''_'' @ getFragmentSuffix c nm)) pts))"
  using assms by (simp add: getAllFragmentSubTypes_def Let_def foldl_push)

lemma getAllFragmentSubTypes_Inl:
  "isUsingDocVarPlugin (plugins args) = Inl e \<Longrightarrow> getAllFragmentSubTypes c args pts nm = Inl e"
  by (simp add: getAllFragmentSubTypes_def)

lemma getAllFragmentSubTypes_no_plugins:
  "getAllFragmentSubTypes c (args\<lparr>plugins := []\<rparr>) pts nm =
     Inr (if length pts = 1 then [convertName c nm True (getFragmentSuffix c nm)]
          else map (\<lambda>tn. convertName c nm True (''_'' @ tn @ ''_'' @ getFragmentSuffix c nm)) pts)"
  by (simp add: getAllFragmentSubTypes_def Let_def foldl_push)

lemma find_key_iff:
  "(find (\<lambda>t. k = t \<or> pre @ t = k) xs \<noteq> None) = (k \<in> set xs \<or> k \<in> set (map (\<lambda>t. pre @ t) xs))"
  by (auto simp: find_None_iff)

lemma isUsingDocVarPlugin_Inr:
  "[] \<notin> set ps \<Longrightarrow> isUsingDocVarPlugin ps = Inr (\<exists>p \<in> set ps. docVarKey (hd p))"
proof (induction ps)
  case Nil
  then show ?case by simp
next
  case (Cons p ps)
  then obtain k ks where p: "p = k # ks" by (cases p) auto
  have "(find (\<lambda>t. toLowerCase k = t \<or> ''@graphql-codegen/'' @ t = toLowerCase k) DOC_VAR_PLUGINS \<noteq> None)
      = docVarKey k"
    unfolding docVarKey_def by (rule find_key_iff)
  with Cons p show ?case by (auto simp: Let_def)
qed

lemma getProperty_setProperty: "getProperty (setProperty prev n e) n = EntryValue e"
  by (simp add: getProperty_def setProperty_def update_conv')

lemma getProperty_plain:
  assumes "\<not> inheritedName n" and "snd prev = None"
  shows "getProperty prev n = (case map_of (fst prev) n of None \<Rightarrow> Falsy | Some e \<Rightarrow> EntryValue e)"
  using assms by (simp add: getProperty_def inheritedName_def split: option.splits)

lemma setProperty_plain:
  assumes "\<not> inheritedName n"
  shows "setProperty prev n e = (AList.update n e (fst prev), snd prev)"
  using assms by (simp add: setProperty_def inheritedName_def)

lemma registerFragment_Inr:
  assumes "registerFragment c args loc st fragment = Inr st'"
  shows "\<exists>schemaType names.
      getType c (typeCondition fragment) = Some schemaType
    \<and> getAllFragmentSubTypes c args (map (typeName c) (getPossibleTypes c schemaType))
          (name_value fragment) = Inr names
    \<and> fst st' = setProperty (fst st) (name_value fragment)
                  \<lparr>filePath = generateFilePath c loc, importNames = names,
                   onType = typeCondition fragment, node = fragment\<rparr>
    \<and> snd st' = snd st @ (case getProperty (fst st) (name_value fragment) of
                             Falsy \<Rightarrow> []
                           | EntryValue old \<Rightarrow> if print c fragment \<noteq> print c (node old)
                                        then [name_value fragment] else []
                           | OtherTruthy \<Rightarrow> [name_value fragment])"
  using assms
  by (auto simp: registerFragment_def Let_def split: option.splits sum.splits PropertyValue.splits)

lemma registerFragment_entry:
  assumes "registerFragment c args loc st fragment = Inr st'"
  shows "\<exists>e. getProperty (fst st') (name_value fragment) = EntryValue e
           \<and> entryFor c args loc fragment e"
proof -
  from registerFragment_Inr [OF assms] obtain schemaType names where
    *: "getType c (typeCondition fragment) = Some schemaType"
    "getAllFragmentSubTypes c args (map (typeName c) (getPossibleTypes c schemaType))
          (name_value fragment) = Inr names"
    "fst st' = setProperty (fst st) (name_value fragment)
                  \<lparr>filePath = generateFilePath c loc, importNames = names,
                   onType = typeCondition fragment, node = fragment\<rparr>"
    by blast
  show ?thesis
    by (simp add: * getProperty_setProperty entryFor_def)
qed

lemma registerFragment_importNames:
  assumes "registerFragment c args loc st fragment = Inr st'"
  shows "\<exists>schemaType hasDocVarPlugin e.
      getType c (typeCondition fragment) = Some schemaType
    \<and> isUsingDocVarPlugin (plugins args) = Inr hasDocVarPlugin
    \<and> getProperty (fst st') (name_value fragment) = EntryValue e
    \<and> importNames e =
        (if hasDocVarPlugin
            \<and> (case documentMode (config args) of None \<Rightarrow> graphQLTag | Some m \<Rightarrow> m) \<noteq> documentNode
            \<and> (case documentMode (config args) of None \<Rightarrow> graphQLTag | Some m \<Rightarrow> m) \<noteq> external
            \<and> (case documentMode (config args) of None \<Rightarrow> graphQLTag | Some m \<Rightarrow> m)
                 \<noteq> documentNodeImportFragments
         then [getFragmentVariableName c (name_value fragment)] else [])
        @ (if length (map (typeName c) (getPossibleTypes c schemaType)) = 1
           then [convertName c (name_value fragment) True (getFragmentSuffix c (name_value fragment))]
           else map (\<lambda>tn. convertName c (name_value fragment) True
                           (''_'' @ tn @ ''_'' @ getFragmentSuffix c (name_value fragment)))
                  (map (typeName c) (getPossibleTypes c schemaType)))"
proof -
  from registerFragment_Inr [OF assms] obtain schemaType names where
    *: "getType c (typeCondition fragment) = Some schemaType"
    "getAllFragmentSubTypes c args (map (typeName c) (getPossibleTypes c schemaType))
          (name_value fragment) = Inr names"
    "fst st' = setProperty (fst st) (name_value fragment)
                  \<lparr>filePath = generateFilePath c loc, importNames = names,
                   onType = typeCondition fragment, node = fragment\<rparr>"
    by blast
  obtain b where b: "isUsingDocVarPlugin (plugins args) = Inr b"
    using *(2) by (cases "isUsingDocVarPlugin (plugins args)") (auto simp: getAllFragmentSubTypes_Inl)
  from *(2) have n: "names =
        (if b
            \<and> (case documentMode (config args) of None \<Rightarrow> graphQLTag | Some m \<Rightarrow> m) \<noteq> documentNode
            \<and> (case documentMode (config args) of None \<Rightarrow> graphQLTag | Some m \<Rightarrow> m) \<noteq> external
            \<and> (case documentMode (config args) of None \<Rightarrow> graphQLTag | Some m \<Rightarrow> m)
                 \<noteq> documentNodeImportFragments
         then [getFragmentVariableName c (name_value fragment)] else [])
        @ (if length (map (typeName c) (getPossibleTypes c schemaType)) = 1
           then [convertName c (name_value fragment) True (getFragmentSuffix c (name_value fragment))]
           else map (\<lambda>tn. convertName c (name_value fragment) True
                           (''_'' @ tn @ ''_'' @ getFragmentSuffix c (name_value fragment)))
                  (map (typeName c) (getPossibleTypes c schemaType)))"
    unfolding getAllFragmentSubTypes_Inr [OF b] by simp
  have g: "getProperty (fst st') (name_value fragment) =
      EntryValue \<lparr>filePath = generateFilePath c loc, importNames = names,
                   onType = typeCondition fragment, node = fragment\<rparr>"
    by (simp add: *(3) getProperty_setProperty)
  have i: "importNames \<lparr>filePath = generateFilePath c loc, importNames = names,
                   onType = typeCondition fragment, node = fragment\<rparr> = names"
    by simp
  from *(1) b g i n show ?thesis by metis
qed

text \<open>
  C5: for a fragment that the builder processes, the import names of its entry are the
  document-variable part (the fragment's document-variable name when a document-variable
  plugin is configured and the document mode allows it, nothing otherwise) followed by
  the type-specialized names: with exactly one possible type, the one name whose suffix
  is the fragment suffix alone; with more than one, one name per possible type in their
  order, with the suffix \<open>_Type_\<close> followed by the fragment suffix; with none, nothing.
  In every case there are as many type-specialized names as possible types.
\<close>

theorem type_specialized_names_by_cardinality:
  assumes "registerFragment c args loc st fragment = Inr st'"
    and "mode = (case documentMode (config args) of None \<Rightarrow> graphQLTag | Some m \<Rightarrow> m)"
  shows "\<exists>schemaType hasDocVarPlugin e.
      getType c (typeCondition fragment) = Some schemaType
    \<and> isUsingDocVarPlugin (plugins args) = Inr hasDocVarPlugin
    \<and> getProperty (fst st') (name_value fragment) = EntryValue e
    \<and> (let possibleTypes = map (typeName c) (getPossibleTypes c schemaType);
            nm = name_value fragment;
            suffix = getFragmentSuffix c nm;
            docVarNames =
              (if hasDocVarPlugin \<and> mode \<noteq> documentNode \<and> mode \<noteq> external
                  \<and> mode \<noteq> documentNodeImportFragments
               then [getFragmentVariableName c nm] else [])
        in (length possibleTypes = 1 \<longrightarrow>
              importNames e = docVarNames @ [convertName c nm True suffix])
         \<and> (1 < length possibleTypes \<longrightarrow>
              importNames e =
                docVarNames @ map (\<lambda>tn. convertName c nm True (''_'' @ tn @ ''_'' @ suffix))
                                possibleTypes)
         \<and> (possibleTypes = [] \<longrightarrow> importNames e = docVarNames)
         \<and> length (importNames e) = length docVarNames + length possibleTypes)"
proof -
  from registerFragment_importNames [OF assms(1)] obtain schemaType hasDocVarPlugin e where
    *: "getType c (typeCondition fragment) = Some schemaType"
    "isUsingDocVarPlugin (plugins args) = Inr hasDocVarPlugin"
    "getProperty (fst st') (name_value fragment) = EntryValue e"
    and n: "importNames e =
        (if hasDocVarPlugin \<and> mode \<noteq> documentNode \<and> mode \<noteq> external
            \<and> mode \<noteq> documentNodeImportFragments
         then [getFragmentVariableName c (name_value fragment)] else [])
        @ (if length (map (typeName c) (getPossibleTypes c schemaType)) = 1
           then [convertName c (name_value fragment) True (getFragmentSuffix c (name_value fragment))]
           else map (\<lambda>tn. convertName c (name_value fragment) True
                           (''_'' @ tn @ ''_'' @ getFragmentSuffix c (name_value fragment)))
                  (map (typeName c) (getPossibleTypes c schemaType)))"
    unfolding assms(2) by blast
  have "let possibleTypes = map (typeName c) (getPossibleTypes c schemaType);
            nm = name_value fragment;
            suffix = getFragmentSuffix c nm;
            docVarNames =
              (if hasDocVarPlugin \<and> mode \<noteq> documentNode \<and> mode \<noteq> external
                  \<and> mode \<noteq> documentNodeImportFragments
               then [getFragmentVariableName c nm] else [])
        in (length possibleTypes = 1 \<longrightarrow>
              importNames e = docVarNames @ [convertName c nm True suffix])
         \<and> (1 < length possibleTypes \<longrightarrow>
              importNames e =
                docVarNames @ map (\<lambda>tn. convertName c nm True (''_'' @ tn @ ''_'' @ suffix))
                                possibleTypes)
         \<and> (possibleTypes = [] \<longrightarrow> importNames e = docVarNames)
         \<and> length (importNames e) = length docVarNames + length possibleTypes"
    unfolding Let_def n by auto
  with * show ?thesis by blast
qed

theorem type_specialized_names_by_cardinality_witness:
  "registerFragment exampleCollaborators (exampleArgs [[''typescript-urql'']] []) ''A.graphql''
      (([], None), []) (exampleFragment ''N'' ''Node'' [''id''])
     = Inr (([(''N'', nodeEntry)], None), [])
   \<and> getType exampleCollaborators ''Node'' = Some (InterfaceType ''Node'' [''User'', ''Admin''])
   \<and> 1 < length (map exampleTypeName (examplePossibleTypes (InterfaceType ''Node'' [''User'', ''Admin''])))
   \<and> importNames nodeEntry =
       [''NFragmentDoc''] @ map (\<lambda>tn. ''N'' @ ''_'' @ tn @ ''_'' @ ''Fragment'') [''User'', ''Admin'']
   \<and> length (importNames nodeEntry) = 1 + 2"
proof -
  let ?args = "exampleArgs [[''typescript-urql'']] []"
  let ?f = "exampleFragment ''N'' ''Node'' [''id'']"
  have h: "registerFragment exampleCollaborators ?args ''A.graphql'' (([], None), []) ?f
             = Inr (([(''N'', nodeEntry)], None), [])"
    by code_simp
  have m: "graphQLTag = (case documentMode (config ?args) of None \<Rightarrow> graphQLTag | Some m \<Rightarrow> m)"
    by (simp add: exampleArgs_def)
  have ty: "getType exampleCollaborators (typeCondition ?f)
              = Some (InterfaceType ''Node'' [''User'', ''Admin''])"
    by code_simp
  have pl: "isUsingDocVarPlugin (plugins ?args) = Inr True"
    by code_simp
  have gp: "getProperty (fst (([(''N'', nodeEntry)], None), [] :: string list)) (name_value ?f)
              = EntryValue nodeEntry"
    by code_simp
  have pts: "map (typeName exampleCollaborators)
               (getPossibleTypes exampleCollaborators (InterfaceType ''Node'' [''User'', ''Admin'']))
             = [''User'', ''Admin'']"
    by code_simp
  have nm: "name_value ?f = ''N''" "getFragmentSuffix exampleCollaborators ''N'' = ''Fragment''"
    "convertName exampleCollaborators = (\<lambda>n useTypesPrefix suffix. n @ suffix)"
    "getFragmentVariableName exampleCollaborators ''N'' = ''NFragmentDoc''"
    by (simp_all add: exampleFragment_def exampleCollaborators_def)
  have ty': "getType exampleCollaborators ''Node'' = Some (InterfaceType ''Node'' [''User'', ''Admin''])"
    by code_simp
  from type_specialized_names_by_cardinality [OF h m, unfolded Let_def gp]
  obtain schemaType hasDocVarPlugin e where
    *: "getType exampleCollaborators (typeCondition ?f) = Some schemaType"
       "isUsingDocVarPlugin (plugins ?args) = Inr hasDocVarPlugin"
       "EntryValue nodeEntry = EntryValue e"
    and c: "1 < length (map (typeName exampleCollaborators) (getPossibleTypes exampleCollaborators schemaType)) \<longrightarrow>
          importNames e =
            (if hasDocVarPlugin \<and> graphQLTag \<noteq> documentNode \<and> graphQLTag \<noteq> external
                  \<and> graphQLTag \<noteq> documentNodeImportFragments
               then [getFragmentVariableName exampleCollaborators (name_value ?f)] else [])
            @ map (\<lambda>tn. convertName exampleCollaborators (name_value ?f) True
             (''_'' @ tn @ ''_'' @ getFragmentSuffix exampleCollaborators (name_value ?f)))
             (map (typeName exampleCollaborators) (getPossibleTypes exampleCollaborators schemaType))"
    by blast
  from *(1) ty have s: "schemaType = InterfaceType ''Node'' [''User'', ''Admin'']" by simp
  from *(2) pl have b: "hasDocVarPlugin = True" by simp
  from *(3) have e: "e = nodeEntry" by simp
  from c have i: "importNames nodeEntry =
       [''NFragmentDoc''] @ map (\<lambda>tn. ''N'' @ ''_'' @ tn @ ''_'' @ ''Fragment'') [''User'', ''Admin'']"
    unfolding s b e pts nm by simp
  then have l: "length (importNames nodeEntry) = 1 + 2" by simp
  have "1 < length (map exampleTypeName (examplePossibleTypes (InterfaceType ''Node'' [''User'', ''Admin''])))"
    by simp
  with h ty' i l show ?thesis by (intro conjI)
qed

text \<open>
  C6: for a fragment that the builder processes, the import names of its entry are the
  type-specialized names, preceded by the fragment's document-variable name exactly when
  a document-variable plugin is configured and the document mode is none of
  \<open>documentNode\<close>, \<open>external\<close> and \<open>documentNodeImportFragments\<close>; otherwise they are the
  type-specialized names alone. A document-variable plugin is configured when the first
  key of some plugin record, in lower case, is one of the listed names or one of them
  under the \<open>@graphql-codegen/\<close> scope.
\<close>

theorem document_variable_name_first:
  assumes "registerFragment c args loc st fragment = Inr st'"
    and "mode = (case documentMode (config args) of None \<Rightarrow> graphQLTag | Some m \<Rightarrow> m)"
    and "typeNames = (\<lambda>possibleTypes.
           if length possibleTypes = 1
           then [convertName c (name_value fragment) True (getFragmentSuffix c (name_value fragment))]
           else map (\<lambda>tn. convertName c (name_value fragment) True
                           (''_'' @ tn @ ''_'' @ getFragmentSuffix c (name_value fragment)))
                  possibleTypes)"
  shows "\<exists>schemaType hasDocVarPlugin e.
      getType c (typeCondition fragment) = Some schemaType
    \<and> isUsingDocVarPlugin (plugins args) = Inr hasDocVarPlugin
    \<and> getProperty (fst st') (name_value fragment) = EntryValue e
    \<and> importNames e =
        (if hasDocVarPlugin \<and> mode \<noteq> documentNode \<and> mode \<noteq> external
            \<and> mode \<noteq> documentNodeImportFragments
         then getFragmentVariableName c (name_value fragment)
                # typeNames (map (typeName c) (getPossibleTypes c schemaType))
         else typeNames (map (typeName c) (getPossibleTypes c schemaType)))
    \<and> ([] \<notin> set (plugins args) \<longrightarrow>
          hasDocVarPlugin = (\<exists>p \<in> set (plugins args). docVarKey (hd p)))"
proof -
  from registerFragment_importNames [OF assms(1)] obtain schemaType hasDocVarPlugin e where
    *: "getType c (typeCondition fragment) = Some schemaType"
    "isUsingDocVarPlugin (plugins args) = Inr hasDocVarPlugin"
    "getProperty (fst st') (name_value fragment) = EntryValue e"
    and n: "importNames e =
        (if hasDocVarPlugin \<and> mode \<noteq> documentNode \<and> mode \<noteq> external
            \<and> mode \<noteq> documentNodeImportFragments
         then [getFragmentVariableName c (name_value fragment)] else [])
        @ (if length (map (typeName c) (getPossibleTypes c schemaType)) = 1
           then [convertName c (name_value fragment) True (getFragmentSuffix c (name_value fragment))]
           else map (\<lambda>tn. convertName c (name_value fragment) True
                           (''_'' @ tn @ ''_'' @ getFragmentSuffix c (name_value fragment)))
                  (map (typeName c) (getPossibleTypes c schemaType)))"
    unfolding assms(2) by blast
  have k: "[] \<notin> set (plugins args) \<longrightarrow> hasDocVarPlugin = (\<exists>p \<in> set (plugins args). docVarKey (hd p))"
    using *(2) by (auto simp: isUsingDocVarPlugin_Inr)
  have "importNames e =
        (if hasDocVarPlugin \<and> mode \<noteq> documentNode \<and> mode \<noteq> external
            \<and> mode \<noteq> documentNodeImportFragments
         then getFragmentVariableName c (name_value fragment)
                # typeNames (map (typeName c) (getPossibleTypes c schemaType))
         else typeNames (map (typeName c) (getPossibleTypes c schemaType)))"
    unfolding n assms(3) by simp
  with * k show ?thesis by blast
qed

theorem document_variable_name_first_witness:
  "registerFragment exampleCollaborators (exampleArgs [[''typescript-urql'']] []) ''A.graphql''
      (([], None), []) (exampleFragment ''N'' ''Node'' [''id''])
     = Inr (([(''N'', nodeEntry)], None), [])
   \<and> [] \<notin> set (plugins (exampleArgs [[''typescript-urql'']] []))
   \<and> isUsingDocVarPlugin (plugins (exampleArgs [[''typescript-urql'']] [])) = Inr True
   \<and> importNames nodeEntry = ''NFragmentDoc'' # [''N_User_Fragment'', ''N_Admin_Fragment'']"
proof -
  let ?args = "exampleArgs [[''typescript-urql'']] []"
  let ?f = "exampleFragment ''N'' ''Node'' [''id'']"
  have h: "registerFragment exampleCollaborators ?args ''A.graphql'' (([], None), []) ?f
             = Inr (([(''N'', nodeEntry)], None), [])"
    by code_simp
  have m: "graphQLTag = (case documentMode (config ?args) of None \<Rightarrow> graphQLTag | Some m \<Rightarrow> m)"
    by (simp add: exampleArgs_def)
  have ty: "getType exampleCollaborators (typeCondition ?f)
              = Some (InterfaceType ''Node'' [''User'', ''Admin''])"
    by code_simp
  have pl: "isUsingDocVarPlugin (plugins ?args) = Inr True"
    by code_simp
  have gp: "getProperty (fst (([(''N'', nodeEntry)], None), [] :: string list)) (name_value ?f)
              = EntryValue nodeEntry"
    by code_simp
  have pts: "map (typeName exampleCollaborators)
               (getPossibleTypes exampleCollaborators (InterfaceType ''Node'' [''User'', ''Admin'']))
             = [''User'', ''Admin'']"
    by code_simp
  have nm: "name_value ?f = ''N''" "getFragmentSuffix exampleCollaborators ''N'' = ''Fragment''"
    "convertName exampleCollaborators = (\<lambda>n useTypesPrefix suffix. n @ suffix)"
    "getFragmentVariableName exampleCollaborators ''N'' = ''NFragmentDoc''"
    by (simp_all add: exampleFragment_def exampleCollaborators_def)
  have ne: "[] \<notin> set (plugins ?args)"
    by (simp add: exampleArgs_def)
  from document_variable_name_first [OF h m refl, unfolded gp]
  obtain schemaType hasDocVarPlugin e where
    *: "getType exampleCollaborators (typeCondition ?f) = Some schemaType"
       "isUsingDocVarPlugin (plugins ?args) = Inr hasDocVarPlugin"
       "EntryValue nodeEntry = EntryValue e"
    and c: "importNames e =
        (if hasDocVarPlugin \<and> graphQLTag \<noteq> documentNode \<and> graphQLTag \<noteq> external
            \<and> graphQLTag \<noteq> documentNodeImportFragments
         then getFragmentVariableName exampleCollaborators (name_value ?f)
                # (\<lambda>possibleTypes.
           if length possibleTypes = 1
           then [convertName exampleCollaborators (name_value ?f) True
                   (getFragmentSuffix exampleCollaborators (name_value ?f))]
           else map (\<lambda>tn. convertName exampleCollaborators (name_value ?f) True
                           (''_'' @ tn @ ''_'' @ getFragmentSuffix exampleCollaborators (name_value ?f)))
                  possibleTypes)
                 (map (typeName exampleCollaborators) (getPossibleTypes exampleCollaborators schemaType))
         else (\<lambda>possibleTypes.
           if length possibleTypes = 1
           then [convertName exampleCollaborators (name_value ?f) True
                   (getFragmentSuffix exampleCollaborators (name_value ?f))]
           else map (\<lambda>tn. convertName exampleCollaborators (name_value ?f) True
                           (''_'' @ tn @ ''_'' @ getFragmentSuffix exampleCollaborators (name_value ?f)))
                  possibleTypes)
                 (map (typeName exampleCollaborators) (getPossibleTypes exampleCollaborators schemaType)))"
    by blast
  from *(1) ty have s: "schemaType = InterfaceType ''Node'' [''User'', ''Admin'']" by simp
  from *(2) pl have b: "hasDocVarPlugin = True" by simp
  from *(3) have e: "e = nodeEntry" by simp
  from c have "importNames nodeEntry = ''NFragmentDoc'' # [''N_User_Fragment'', ''N_Admin_Fragment'']"
    unfolding s b e pts nm by simp
  with h ne pl show ?thesis by (intro conjI)
qed

subsection \<open>The scan of the builder\<close>

lemma registerFragments_registerAll:
  "registerFragments c args loc st fs = registerAll c args st (map (Pair loc) fs)"
  by (induction fs arbitrary: st) (simp_all split: sum.splits)

lemma registerAll_append:
  "registerAll c args st (xs @ ys) =
     (case registerAll c args st xs of Inl e \<Rightarrow> Inl e | Inr st' \<Rightarrow> registerAll c args st' ys)"
  by (induction xs arbitrary: st) (simp_all split: sum.splits)

lemma reduceDocuments_registerAll:
  "reduceDocuments c args st docs = registerAll c args st (allFragments docs)"
  by (induction docs arbitrary: st)
     (simp_all add: allFragments_def registerFragments_registerAll registerAll_append
        split: sum.splits)

lemma registerFragment_unknown:
  "getType c (typeCondition f) = None \<Longrightarrow>
   registerFragment c args loc st f = Inl (Error (unknownTypeMessage f))"
  by (simp add: registerFragment_def)

lemma registerFragment_succeeds:
  assumes "isUsingDocVarPlugin (plugins args) = Inr b"
    and "getType c (typeCondition f) \<noteq> None"
  shows "\<exists>st'. registerFragment c args loc st f = Inr st'"
  using assms
  by (auto simp: registerFragment_def getAllFragmentSubTypes_Inr Let_def)

lemma registerAll_succeeds:
  assumes "isUsingDocVarPlugin (plugins args) = Inr b"
    and "\<forall>x \<in> set lfs. getType c (typeCondition (snd x)) \<noteq> None"
  shows "\<exists>st'. registerAll c args st lfs = Inr st'"
  using assms(2)
proof (induction lfs arbitrary: st)
  case Nil
  then show ?case by simp
next
  case (Cons lf lfs)
  then obtain st1 where "registerFragment c args (fst lf) st (snd lf) = Inr st1"
    using registerFragment_succeeds [OF assms(1), of c "snd lf" "fst lf" st] by auto
  with Cons show ?case by simp
qed

lemma registerFragment_plain:
  assumes "registerFragment c args loc st fragment = Inr st'"
    and "\<not> inheritedName (name_value fragment)"
    and "snd (fst st) = None"
  shows "\<exists>e. fst st' = (AList.update (name_value fragment) e (fst (fst st)), None)
           \<and> node e = fragment
           \<and> snd st' = snd st @ (case map_of (fst (fst st)) (name_value fragment) of
                                   None \<Rightarrow> []
                                 | Some old \<Rightarrow> if print c fragment \<noteq> print c (node old)
                                              then [name_value fragment] else [])"
proof -
  from registerFragment_Inr [OF assms(1)] obtain e where
    f: "fst st' = setProperty (fst st) (name_value fragment) e" "node e = fragment"
    and s: "snd st' = snd st @ (case getProperty (fst st) (name_value fragment) of
                             Falsy \<Rightarrow> []
                           | EntryValue old \<Rightarrow> if print c fragment \<noteq> print c (node old)
                                        then [name_value fragment] else []
                           | OtherTruthy \<Rightarrow> [name_value fragment])"
    by force
  have 1: "fst st' = (AList.update (name_value fragment) e (fst (fst st)), None)"
    by (simp add: f(1) setProperty_plain [OF assms(2)] assms(3))
  have 2: "snd st' = snd st @ (case map_of (fst (fst st)) (name_value fragment) of
                                   None \<Rightarrow> []
                                 | Some old \<Rightarrow> if print c fragment \<noteq> print c (node old)
                                              then [name_value fragment] else [])"
    unfolding s getProperty_plain [OF assms(2,3)]
    by (cases "map_of (fst (fst st)) (name_value fragment)") simp_all
  from 1 f(2) 2 show ?thesis by blast
qed

lemma registerAll_plain:
  assumes "registerAll c args st lfs = Inr st'"
    and "\<forall>x \<in> set lfs. \<not> inheritedName (name_value (snd x))"
    and "snd (fst st) = None"
  shows "snd (fst st') = None"
  using assms
proof (induction lfs arbitrary: st)
  case Nil
  then show ?case by simp
next
  case (Cons lf lfs)
  from Cons.prems(1) obtain st1 where
    1: "registerFragment c args (fst lf) st (snd lf) = Inr st1"
    and 2: "registerAll c args st1 lfs = Inr st'"
    by (auto split: sum.splits)
  from Cons.prems(2) have p: "\<not> inheritedName (name_value (snd lf))" by simp
  from registerFragment_plain [OF 1 p Cons.prems(3)] have b: "snd (fst st1) = None"
    by auto
  from Cons.prems(2) have r: "\<forall>x \<in> set lfs. \<not> inheritedName (name_value (snd x))" by simp
  from Cons.IH [OF 2 r b] show ?case .
qed

lemma registerAll_keeps:
  assumes "registerAll c args st lfs = Inr st'"
    and "\<forall>x \<in> set lfs. \<not> inheritedName (name_value (snd x))"
    and "snd (fst st) = None"
    and "n \<notin> (name_value \<circ> snd) ` set lfs"
  shows "snd (fst st') = None \<and> map_of (fst (fst st')) n = map_of (fst (fst st)) n"
  using assms
proof (induction lfs arbitrary: st)
  case Nil
  then show ?case by simp
next
  case (Cons lf lfs)
  from Cons.prems(1) obtain st1 where
    1: "registerFragment c args (fst lf) st (snd lf) = Inr st1"
    and 2: "registerAll c args st1 lfs = Inr st'"
    by (auto split: sum.splits)
  from Cons.prems(2) have p: "\<not> inheritedName (name_value (snd lf))" by simp
  from registerFragment_plain [OF 1 p Cons.prems(3)] obtain e where
    f: "fst st1 = (AList.update (name_value (snd lf)) e (fst (fst st)), None)"
    by blast
  from f Cons.prems(4) have a: "map_of (fst (fst st1)) n = map_of (fst (fst st)) n"
    by (auto simp: update_conv')
  from f have b: "snd (fst st1) = None" by simp
  from Cons.IH [OF 2 _ b] Cons.prems(2,4) a show ?case by simp
qed

lemma registerAll_duplicates:
  assumes "registerAll c args st lfs = Inr st'"
    and "\<forall>x \<in> set lfs. \<not> inheritedName (name_value (snd x))"
    and "snd (fst st) = None"
    and "\<And>n. map_option node (map_of (fst (fst st)) n) = map_of seen n"
  shows "snd st' = snd st @ duplicateNames (print c) seen (map snd lfs)"
  using assms
proof (induction lfs arbitrary: st seen)
  case Nil
  then show ?case by simp
next
  case (Cons lf lfs)
  from Cons.prems(1) obtain st1 where
    1: "registerFragment c args (fst lf) st (snd lf) = Inr st1"
    and 2: "registerAll c args st1 lfs = Inr st'"
    by (auto split: sum.splits)
  from Cons.prems(2) have p: "\<not> inheritedName (name_value (snd lf))" by simp
  from registerFragment_plain [OF 1 p Cons.prems(3)] obtain e where
    f: "fst st1 = (AList.update (name_value (snd lf)) e (fst (fst st)), None)" "node e = snd lf"
    and s: "snd st1 = snd st @ (case map_of (fst (fst st)) (name_value (snd lf)) of
                             None \<Rightarrow> []
                           | Some old \<Rightarrow> if print c (snd lf) \<noteq> print c (node old)
                                        then [name_value (snd lf)] else [])"
    by blast
  have b: "snd (fst st1) = None" by (simp add: f(1))
  have inv: "map_option node (map_of (fst (fst st1)) n)
               = map_of ((name_value (snd lf), snd lf) # seen) n" for n
    using Cons.prems(4) [of n] by (simp add: f update_conv')
  have hd: "(case map_of (fst (fst st)) (name_value (snd lf)) of
                             None \<Rightarrow> []
                           | Some old \<Rightarrow> if print c (snd lf) \<noteq> print c (node old)
                                        then [name_value (snd lf)] else [])
       = (case map_of seen (name_value (snd lf)) of
            None \<Rightarrow> []
          | Some g \<Rightarrow> if print c (snd lf) \<noteq> print c g then [name_value (snd lf)] else [])"
    using Cons.prems(4) [of "name_value (snd lf)", symmetric]
    by (cases "map_of (fst (fst st)) (name_value (snd lf))") auto
  from Cons.prems(2) have r: "\<forall>x \<in> set lfs. \<not> inheritedName (name_value (snd x))" by simp
  from Cons.IH [OF 2 r b inv] show ?case
    by (simp add: s hd)
qed

text \<open>A scan that replaced the prototype has reported a name, so a build that returns
  a registry returns an object with the original prototype.\<close>

lemma registerFragment_prototype:
  assumes "registerFragment c args loc st fragment = Inr st'"
    and "snd (fst st) = None \<or> snd st \<noteq> []"
  shows "snd (fst st') = None \<or> snd st' \<noteq> []"
proof -
  from registerFragment_Inr [OF assms(1)] obtain e where
    f: "fst st' = setProperty (fst st) (name_value fragment) e"
    and s: "snd st' = snd st @ (case getProperty (fst st) (name_value fragment) of
                             Falsy \<Rightarrow> []
                           | EntryValue old \<Rightarrow> if print c fragment \<noteq> print c (node old)
                                        then [name_value fragment] else []
                           | OtherTruthy \<Rightarrow> [name_value fragment])"
    by force
  show ?thesis
  proof (cases "snd st = []")
    case False
    then show ?thesis by (simp add: s)
  next
    case True
    with assms(2) have n: "snd (fst st) = None" by simp
    show ?thesis
    proof (cases "name_value fragment = ''__proto__''")
      case True
      then show ?thesis by (simp add: s getProperty_def n)
    next
      case False
      then show ?thesis by (simp add: f setProperty_def n)
    qed
  qed
qed

lemma registerAll_prototype:
  assumes "registerAll c args st lfs = Inr st'"
    and "snd (fst st) = None \<or> snd st \<noteq> []"
  shows "snd (fst st') = None \<or> snd st' \<noteq> []"
  using assms
proof (induction lfs arbitrary: st)
  case Nil
  then show ?case by simp
next
  case (Cons lf lfs)
  from Cons.prems(1) obtain st1 where
    1: "registerFragment c args (fst lf) st (snd lf) = Inr st1"
    and 2: "registerAll c args st1 lfs = Inr st'"
    by (auto split: sum.splits)
  from Cons.IH [OF 2 registerFragment_prototype [OF 1 Cons.prems(2)]] show ?case .
qed

lemma duplicateNames_iff:
  "n \<in> set (duplicateNames pr seen fs) \<longleftrightarrow>
     (\<exists>f \<in> set ((case map_of seen n of None \<Rightarrow> [] | Some g \<Rightarrow> [g]) @ filter (\<lambda>f. name_value f = n) fs).
      \<exists>g \<in> set ((case map_of seen n of None \<Rightarrow> [] | Some g \<Rightarrow> [g]) @ filter (\<lambda>f. name_value f = n) fs).
        pr f \<noteq> pr g)"
proof (induction fs arbitrary: seen)
  case Nil
  then show ?case by (cases "map_of seen n") auto
next
  case (Cons f fs)
  show ?case
  proof (cases "name_value f = n")
    case False
    then show ?thesis
      using Cons.IH [of "(name_value f, f) # seen"]
      by (auto split: option.splits)
  next
    case True
    show ?thesis
    proof (cases "map_of seen n")
      case None
      with True show ?thesis
        using Cons.IH [of "(name_value f, f) # seen"] by auto
    next
      case (Some g)
      with True show ?thesis
        using Cons.IH [of "(name_value f, f) # seen"]
        by simp
    qed
  qed
qed

lemma set_duplicateNames:
  "set (duplicateNames pr [] fs) =
     {n. \<exists>f \<in> set fs. \<exists>g \<in> set fs. name_value f = n \<and> name_value g = n \<and> pr f \<noteq> pr g}"
proof -
  have "n \<in> set (duplicateNames pr [] fs) \<longleftrightarrow>
      (\<exists>f \<in> set fs. \<exists>g \<in> set fs. name_value f = n \<and> name_value g = n \<and> pr f \<noteq> pr g)" for n
    unfolding duplicateNames_iff by simp blast
  then show ?thesis by blast
qed

lemma buildFragmentRegistry_registerAll:
  "buildFragmentRegistry c args =
     (case registerAll c args (([], None), []) (allFragments (documents args)) of
        Inl e \<Rightarrow> Inl e
      | Inr st \<Rightarrow> if snd st \<noteq> [] then Inl (Error (duplicatesMessage (snd st)))
                  else Inr (fst (fst st)))"
  by (simp add: buildFragmentRegistry_def reduceDocuments_registerAll split: sum.splits prod.splits)

text \<open>A fragment named like an inherited property is reported at its first definition:
  the registry object already has a truthy value under that name.\<close>

lemma inherited_name_reported:
  \<open>buildFragmentRegistry exampleCollaborators
      (exampleArgs [[''typescript'']]
         [documentFile ''A.graphql''
            [FragmentDefinition (exampleFragment ''toString'' ''User'' [''id''])]])
    = Inl (Error ''Multiple fragments with the name(s) "toString" were found.'')\<close>
  by code_simp

lemma buildFragmentRegistry_prototype:
  assumes "buildFragmentRegistry c args = Inr reg"
  shows "registerAll c args (([], None), []) (allFragments (documents args)) = Inr ((reg, None), [])"
proof -
  from assms obtain st where
    1: "registerAll c args (([], None), []) (allFragments (documents args)) = Inr st"
    and 2: "snd st = []" and 3: "reg = fst (fst st)"
    unfolding buildFragmentRegistry_registerAll
    by (cases "registerAll c args (([], None), []) (allFragments (documents args))")
       (auto split: if_splits)
  from registerAll_prototype [OF 1] 2 have "snd (fst st) = None" by simp
  with 2 3 have "st = ((reg, None), [])"
    by (cases st) auto
  with 1 show ?thesis by simp
qed

text \<open>
  C4: when the first fragment, in document order and then definition order, whose type
  condition the schema does not know is reached, the build fails with the error that
  names the fragment and the missing type, and no registry and no resolver is returned.
  The fragments after it are arbitrary, so they have no influence; conflicts among the
  fragments before it are not reported. The plugin records are taken to be readable (with
  a record without keys the first fragment whose type exists raises a TypeError).
\<close>

theorem unknown_type_aborts_build:
  assumes "isUsingDocVarPlugin (plugins args) = Inr b"
    and "allFragments (documents args) = pre @ (loc, fragment) # post"
    and "\<forall>x \<in> set pre. getType c (typeCondition (snd x)) \<noteq> None"
    and "getType c (typeCondition fragment) = None"
  shows \<open>buildFragmentRegistry c args =
           Inl (Error (''Fragment "'' @ name_value fragment
                        @ ''" is set on non-existing type "'' @ typeCondition fragment @ ''"!''))
    \<and> buildFragmentResolver c args =
           Inl (Error (''Fragment "'' @ name_value fragment
                        @ ''" is set on non-existing type "'' @ typeCondition fragment @ ''"!''))\<close>
proof -
  obtain st1 where 1: "registerAll c args (([], None), []) pre = Inr st1"
    using registerAll_succeeds [OF assms(1,3)] by blast
  have "registerAll c args (([], None), []) (allFragments (documents args))
          = Inl (Error (unknownTypeMessage fragment))"
    unfolding assms(2) registerAll_append 1
    by (simp add: registerFragment_unknown [OF assms(4)])
  then have "buildFragmentRegistry c args = Inl (Error (unknownTypeMessage fragment))"
    by (simp add: buildFragmentRegistry_registerAll)
  then show ?thesis
    by (simp add: buildFragmentResolver_def unknownTypeMessage_def)
qed

theorem unknown_type_aborts_build_witness:
  \<open>isUsingDocVarPlugin (plugins (exampleArgs [[''typescript'']] (conflictDocuments @ [lateUnknownDocument])))
     = Inr False
   \<and> allFragments (documents (exampleArgs [[''typescript'']] (conflictDocuments @ [lateUnknownDocument])))
       = allFragments conflictDocuments
           @ (''D.graphql'', exampleFragment ''Late'' ''Missing'' [''id''])
           # [(''D.graphql'', exampleFragment ''Later'' ''Gone'' [''id''])]
   \<and> getType exampleCollaborators (typeCondition (exampleFragment ''Late'' ''Missing'' [''id''])) = None
   \<and> buildFragmentRegistry exampleCollaborators
         (exampleArgs [[''typescript'']] (conflictDocuments @ [lateUnknownDocument]))
       = Inl (Error ''Fragment "Late" is set on non-existing type "Missing"!'')\<close>
proof -
  let ?args = "exampleArgs [[''typescript'']] (conflictDocuments @ [lateUnknownDocument])"
  let ?late = "exampleFragment ''Late'' ''Missing'' [''id'']"
  have h1: "isUsingDocVarPlugin (plugins ?args) = Inr False"
    by code_simp
  have h2: "allFragments (documents ?args)
       = allFragments conflictDocuments @ (''D.graphql'', ?late)
           # [(''D.graphql'', exampleFragment ''Later'' ''Gone'' [''id''])]"
    by code_simp
  have h3: "\<forall>x \<in> set (allFragments conflictDocuments).
              getType exampleCollaborators (typeCondition (snd x)) \<noteq> None"
    by code_simp
  have h4: "getType exampleCollaborators (typeCondition ?late) = None"
    by code_simp
  have nm: "name_value ?late = ''Late''" "typeCondition ?late = ''Missing''"
    by (simp_all add: exampleFragment_def)
  note t = unknown_type_aborts_build [OF h1 h2 h3 h4, THEN conjunct1, unfolded nm, simplified]
  from h1 h2 h4 t show ?thesis by (intro conjI)
qed

text \<open>
  C3, as the code has it: when the plugin records can be read, every type condition
  resolves, no fragment is named like a property that a plain object inherits, and some
  name is defined with two different serialized forms, the whole document set is scanned and the build
  fails with the single error whose message joins the reported names with a comma and a
  space. The reported names are those of the whole scan (one report for each definition
  that differs from the latest earlier definition of its name), and as a set they are
  exactly the names that have two definitions with different serialized forms.
\<close>

theorem duplicate_conflicts_reported_together:
  assumes "isUsingDocVarPlugin (plugins args) = Inr b"
    and "\<forall>x \<in> set (allFragments (documents args)). getType c (typeCondition (snd x)) \<noteq> None"
    and "fragments = map snd (allFragments (documents args))"
    and "\<forall>f \<in> set fragments. \<not> inheritedName (name_value f)"
    and "\<exists>f \<in> set fragments. \<exists>g \<in> set fragments.
           name_value f = name_value g \<and> print c f \<noteq> print c g"
  shows \<open>buildFragmentRegistry c args =
           Inl (Error (''Multiple fragments with the name(s) "''
                        @ join '', '' (duplicateNames (print c) [] fragments)
                        @ ''" were found.''))
    \<and> set (duplicateNames (print c) [] fragments) =
        {n. \<exists>f \<in> set fragments. \<exists>g \<in> set fragments.
              name_value f = n \<and> name_value g = n \<and> print c f \<noteq> print c g}\<close>
proof -
  obtain st1 where 1: "registerAll c args (([], None), []) (allFragments (documents args)) = Inr st1"
    using registerAll_succeeds [OF assms(1,2)] by blast
  have plain: "\<forall>x \<in> set (allFragments (documents args)). \<not> inheritedName (name_value (snd x))"
    using assms(4) unfolding assms(3) by simp
  have "snd st1 = snd (([], None) :: RegistryObject, [] :: string list)
                    @ duplicateNames (print c) [] (map snd (allFragments (documents args)))"
    by (rule registerAll_duplicates [OF 1 plain]) simp_all
  then have 2: "snd st1 = duplicateNames (print c) [] fragments"
    by (simp add: assms(3))
  have 3: "set (duplicateNames (print c) [] fragments) =
        {n. \<exists>f \<in> set fragments. \<exists>g \<in> set fragments.
              name_value f = n \<and> name_value g = n \<and> print c f \<noteq> print c g}"
    by (rule set_duplicateNames)
  from assms(5) have "set (duplicateNames (print c) [] fragments) \<noteq> {}"
    unfolding 3 by blast
  then have 4: "duplicateNames (print c) [] fragments \<noteq> []"
    by auto
  have "buildFragmentRegistry c args =
          Inl (Error (duplicatesMessage (duplicateNames (print c) [] fragments)))"
    using 4 by (simp add: buildFragmentRegistry_registerAll 1 2)
  with 3 show ?thesis
    by (simp add: duplicatesMessage_def)
qed

theorem duplicate_conflicts_reported_together_witness:
  \<open>isUsingDocVarPlugin (plugins (exampleArgs [[''typescript'']] conflictDocuments)) = Inr False
   \<and> map (name_value \<circ> snd) (allFragments (documents (exampleArgs [[''typescript'']] conflictDocuments)))
       = [''Dup'', ''Other'', ''Dup'', ''Other'', ''Fine'']
   \<and> print exampleCollaborators (exampleFragment ''Dup'' ''User'' [''id''])
       \<noteq> print exampleCollaborators (exampleFragment ''Dup'' ''User'' [''id'', ''name''])
   \<and> buildFragmentRegistry exampleCollaborators (exampleArgs [[''typescript'']] conflictDocuments)
       = Inl (Error ''Multiple fragments with the name(s) "Dup, Other" were found.'')\<close>
proof -
  let ?args = "exampleArgs [[''typescript'']] conflictDocuments"
  have h1: "isUsingDocVarPlugin (plugins ?args) = Inr False"
    by code_simp
  have h2: "\<forall>x \<in> set (allFragments (documents ?args)).
              getType exampleCollaborators (typeCondition (snd x)) \<noteq> None"
    by code_simp
  have h4: "\<exists>f \<in> set (map snd (allFragments (documents ?args))).
            \<exists>g \<in> set (map snd (allFragments (documents ?args))).
              name_value f = name_value g \<and> print exampleCollaborators f \<noteq> print exampleCollaborators g"
    by code_simp
  have d: "duplicateNames (print exampleCollaborators) [] (map snd (allFragments (documents ?args)))
             = [''Dup'', ''Other'']"
    by code_simp
  have h3: "\<forall>f \<in> set (map snd (allFragments (documents ?args))). \<not> inheritedName (name_value f)"
    by code_simp
  note t = duplicate_conflicts_reported_together [OF h1 h2 refl h3 h4, THEN conjunct1, unfolded d,
      simplified]
  have n: "map (name_value \<circ> snd) (allFragments (documents ?args))
       = [''Dup'', ''Other'', ''Dup'', ''Other'', ''Fine'']"
    by code_simp
  have p: "print exampleCollaborators (exampleFragment ''Dup'' ''User'' [''id''])
       \<noteq> print exampleCollaborators (exampleFragment ''Dup'' ''User'' [''id'', ''name''])"
    by code_simp
  from h1 n p t show ?thesis by (intro conjI)
qed

text \<open>
  C1, as the code has it: when the plugin records can be read, every type condition
  resolves, no fragment is named like a property that a plain object inherits, and
  definitions of the same name always have the same serialized form, the build returns a registry, and the
  registry maps a name to the entry computed from its last definition: the file path of
  that definition's document, the import names and type computed for it, and that
  definition as the node.
\<close>

theorem identical_duplicates_keep_last:
  assumes "isUsingDocVarPlugin (plugins args) = Inr b"
    and "\<forall>x \<in> set (allFragments (documents args)). getType c (typeCondition (snd x)) \<noteq> None"
    and "fragments = map snd (allFragments (documents args))"
    and "\<forall>f \<in> set fragments. \<not> inheritedName (name_value f)"
    and "\<forall>f \<in> set fragments. \<forall>g \<in> set fragments.
           name_value f = name_value g \<longrightarrow> print c f = print c g"
    and "allFragments (documents args) = pre @ (loc, fragment) # post"
    and "name_value fragment \<notin> (name_value \<circ> snd) ` set post"
  shows "\<exists>reg e schemaType.
      buildFragmentRegistry c args = Inr reg
    \<and> map_of reg (name_value fragment) = Some e
    \<and> filePath e = generateFilePath c loc
    \<and> getType c (typeCondition fragment) = Some schemaType
    \<and> getAllFragmentSubTypes c args (map (typeName c) (getPossibleTypes c schemaType))
          (name_value fragment) = Inr (importNames e)
    \<and> onType e = typeCondition fragment
    \<and> node e = fragment"
proof -
  obtain st3 where all: "registerAll c args (([], None), []) (allFragments (documents args)) = Inr st3"
    using registerAll_succeeds [OF assms(1,2)] by blast
  have plain: "\<forall>x \<in> set (allFragments (documents args)). \<not> inheritedName (name_value (snd x))"
    using assms(4) unfolding assms(3) by simp
  have "snd st3 = snd (([], None) :: RegistryObject, [] :: string list)
                    @ duplicateNames (print c) [] (map snd (allFragments (documents args)))"
    by (rule registerAll_duplicates [OF all plain]) simp_all
  then have d: "snd st3 = duplicateNames (print c) [] fragments"
    by (simp add: assms(3))
  have "n \<notin> set (duplicateNames (print c) [] fragments)" for n
  proof
    assume "n \<in> set (duplicateNames (print c) [] fragments)"
    then obtain f g where fg: "f \<in> set fragments" "g \<in> set fragments"
      "name_value f = n" "name_value g = n" "print c f \<noteq> print c g"
      unfolding set_duplicateNames by auto
    from assms(5) [rule_format, OF fg(1,2)] fg(3,4,5) show False by simp
  qed
  then have "duplicateNames (print c) [] fragments = []"
    by (cases "duplicateNames (print c) [] fragments") auto
  then have nodup: "snd st3 = []"
    unfolding d by simp
  have build: "buildFragmentRegistry c args = Inr (fst (fst st3))"
    by (simp add: buildFragmentRegistry_registerAll all nodup)
  have split: "registerAll c args (([], None), []) (pre @ [(loc, fragment)] @ post) = Inr st3"
    using all unfolding assms(6) by simp
  obtain st1 where 1: "registerAll c args (([], None), []) pre = Inr st1"
    using split unfolding registerAll_append
    by (cases "registerAll c args (([], None), []) pre") simp_all
  obtain st2 where 2: "registerFragment c args loc st1 fragment = Inr st2"
    using split unfolding registerAll_append 1
    by (cases "registerFragment c args loc st1 fragment") simp_all
  have 3: "registerAll c args st2 post = Inr st3"
    using split unfolding registerAll_append 1 by (simp add: 2)
  from plain have ppre: "\<forall>x \<in> set pre. \<not> inheritedName (name_value (snd x))"
    and pf: "\<not> inheritedName (name_value fragment)"
    and ppost: "\<forall>x \<in> set post. \<not> inheritedName (name_value (snd x))"
    unfolding assms(6) by simp_all
  have n1: "snd (fst st1) = None"
    by (rule registerAll_plain [OF 1 ppre]) simp
  from registerFragment_plain [OF 2 pf n1] have n2: "snd (fst st2) = None"
    by auto
  from registerFragment_entry [OF 2] obtain e where
    e: "getProperty (fst st2) (name_value fragment) = EntryValue e" "entryFor c args loc fragment e"
    by blast
  from e(1) have m2: "map_of (fst (fst st2)) (name_value fragment) = Some e"
    unfolding getProperty_plain [OF pf n2]
    by (cases "map_of (fst (fst st2)) (name_value fragment)") simp_all
  have m: "map_of (fst (fst st3)) (name_value fragment) = Some e"
    using registerAll_keeps [OF 3 ppost n2 assms(7)] m2 by simp
  from e(2) obtain schemaType where
    t: "getType c (typeCondition fragment) = Some schemaType"
    "getAllFragmentSubTypes c args (map (typeName c) (getPossibleTypes c schemaType))
          (name_value fragment) = Inr (importNames e)"
    "filePath e = generateFilePath c loc" "onType e = typeCondition fragment" "node e = fragment"
    unfolding entryFor_def by (cases "getType c (typeCondition fragment)") simp_all
  from build m t show ?thesis by blast
qed

theorem identical_duplicates_keep_last_witness:
  "isUsingDocVarPlugin (plugins (exampleArgs [[''typescript'']] identicalDocuments)) = Inr False
   \<and> allFragments (documents (exampleArgs [[''typescript'']] identicalDocuments))
       = [(''A.graphql'', exampleFragment ''Dup'' ''User'' [''id''])]
           @ (''B.graphql'', exampleFragment ''Dup'' ''User'' [''id'']) # []
   \<and> buildFragmentRegistry exampleCollaborators (exampleArgs [[''typescript'']] identicalDocuments)
       = Inr [(''Dup'', dupEntry ''B.generated'')]
   \<and> filePath (dupEntry ''B.generated'') = generateFilePath exampleCollaborators ''B.graphql''"
proof -
  let ?args = "exampleArgs [[''typescript'']] identicalDocuments"
  let ?f = "exampleFragment ''Dup'' ''User'' [''id'']"
  have h1: "isUsingDocVarPlugin (plugins ?args) = Inr False"
    by code_simp
  have h2: "\<forall>x \<in> set (allFragments (documents ?args)).
              getType exampleCollaborators (typeCondition (snd x)) \<noteq> None"
    by code_simp
  have h4: "\<forall>f \<in> set (map snd (allFragments (documents ?args))).
            \<forall>g \<in> set (map snd (allFragments (documents ?args))).
              name_value f = name_value g \<longrightarrow> print exampleCollaborators f = print exampleCollaborators g"
    by code_simp
  have h5: "allFragments (documents ?args) = [(''A.graphql'', ?f)] @ (''B.graphql'', ?f) # []"
    by code_simp
  have h6: "name_value ?f \<notin> (name_value \<circ> snd) ` set []"
    by simp
  have ev: "buildFragmentRegistry exampleCollaborators ?args = Inr [(''Dup'', dupEntry ''B.generated'')]"
    by code_simp
  have nm: "name_value ?f = ''Dup''"
    by (simp add: exampleFragment_def)
  have h3: "\<forall>f \<in> set (map snd (allFragments (documents ?args))). \<not> inheritedName (name_value f)"
    by code_simp
  from identical_duplicates_keep_last [OF h1 h2 refl h3 h4 h5 h6]
  obtain reg e where
    *: "buildFragmentRegistry exampleCollaborators ?args = Inr reg"
       "map_of reg (name_value ?f) = Some e"
       "filePath e = generateFilePath exampleCollaborators ''B.graphql''"
    by blast
  from *(1) ev have "reg = [(''Dup'', dupEntry ''B.generated'')]" by simp
  with *(2) have "e = dupEntry ''B.generated''" by (simp add: nm)
  with *(3) have "filePath (dupEntry ''B.generated'') = generateFilePath exampleCollaborators ''B.graphql''"
    by simp
  with h1 h5 ev show ?thesis by (intro conjI)
qed

text \<open>
  C2, as the code has it: for the documents \<^verbatim>\<open>A.graphql\<close> and \<^verbatim>\<open>B.graphql\<close> of the
  scenario, a schema in which \<open>User\<close> expands to itself alone, a document-variable
  plugin and the default document mode, the entry of \<open>F\<close> has the file path generated
  for \<^verbatim>\<open>A.graphql\<close>, the type \<open>User\<close> and two import names, the document-variable
  name followed by the type-specialized name. When the usage resolver reports \<open>F\<close> at
  level 0 for \<^verbatim>\<open>B.graphql\<close>, the plan has the one external fragment \<open>F\<close> at level 0
  on \<open>User\<close> and one import statement, generated for the path of \<^verbatim>\<open>A.graphql\<close> with
  both names.
\<close>

theorem scenario_registry_and_plan:
  assumes "documents args = [docA, docB]"
    and "isUsingDocVarPlugin (plugins args) = Inr True"
    and "documentMode (config args) = None"
    and "getType c ''User'' = Some user"
    and "getPossibleTypes c user = [user]"
    and "names = [getFragmentVariableName c ''F'',
                  convertName c ''F'' True (getFragmentSuffix c ''F'')]"
    and "reg = [(''F'', \<lparr>filePath = generateFilePath c ''A.graphql'', importNames = names,
                        onType = ''User'', node = exampleFragment ''F'' ''User'' [''id'']\<rparr>)]"
    and "extractExternalFragmentsInUse c (document docB) reg = [(''F'', 0)]"
  shows "buildFragmentRegistry c args = Inr reg
    \<and> resolveFragments c args reg path (document docB) =
        \<lparr>externalFragments =
           [\<lparr>level = 0, isExternal = True, name = ''F'', fragmentOnType = ''User'',
             fragmentNode = exampleFragment ''F'' ''User'' [''id'']\<rparr>],
         fragmentImportStatements =
           [generateImportStatement c (baseOutputDir args) path
              (generateFilePath c ''A.graphql'') (newSet names)]\<rparr>"
proof -
  have sub: "getAllFragmentSubTypes c args (map (typeName c) [user]) ''F'' = Inr names"
    by (simp add: getAllFragmentSubTypes_Inr [OF assms(2)] assms(3,6))
  have "buildFragmentRegistry c args = Inr reg"
    by (simp add: buildFragmentRegistry_def assms(1,4,5,7) docA_def docB_def documentFile_def
          registerFragment_def exampleFragment_def sub [simplified] getProperty_def
          setProperty_def objectPrototypeNames_def)
  moreover have "resolveFragments c args reg path (document docB) =
        \<lparr>externalFragments =
           [\<lparr>level = 0, isExternal = True, name = ''F'', fragmentOnType = ''User'',
             fragmentNode = exampleFragment ''F'' ''User'' [''id'']\<rparr>],
         fragmentImportStatements =
           [generateImportStatement c (baseOutputDir args) path
              (generateFilePath c ''A.graphql'') (newSet names)]\<rparr>"
    unfolding resolveFragments_def assms(8) Let_def
    by (simp add: resolveStep_def assms(7))
  ultimately show ?thesis by simp
qed

theorem scenario_registry_and_plan_witness:
  \<open>isUsingDocVarPlugin (plugins (exampleArgs [[''typescript-react-apollo'']] [docA, docB])) = Inr True
   \<and> getType exampleCollaborators ''User'' = Some (ObjectType ''User'')
   \<and> getPossibleTypes exampleCollaborators (ObjectType ''User'') = [ObjectType ''User'']
   \<and> extractExternalFragmentsInUse exampleCollaborators (document docB)
        [(''F'', scenarioEntry [''FFragmentDoc'', ''FFragment''])] = [(''F'', 0)]
   \<and> buildFragmentRegistry exampleCollaborators (exampleArgs [[''typescript-react-apollo'']] [docA, docB])
       = Inr [(''F'', scenarioEntry [''FFragmentDoc'', ''FFragment''])]
   \<and> resolveFragments exampleCollaborators (exampleArgs [[''typescript-react-apollo'']] [docA, docB])
        [(''F'', scenarioEntry [''FFragmentDoc'', ''FFragment''])] ''B.generated'' (document docB)
       = \<lparr>externalFragments =
            [\<lparr>level = 0, isExternal = True, name = ''F'', fragmentOnType = ''User'',
              fragmentNode = exampleFragment ''F'' ''User'' [''id'']\<rparr>],
          fragmentImportStatements = [''import { FFragmentDoc, FFragment } from "A.generated"'']\<rparr>\<close>
proof -
  let ?args = "exampleArgs [[''typescript-react-apollo'']] [docA, docB]"
  let ?reg = "[(''F'', scenarioEntry [''FFragmentDoc'', ''FFragment''])]"
  have h1: "documents ?args = [docA, docB]"
    by (simp add: exampleArgs_def)
  have h2: "isUsingDocVarPlugin (plugins ?args) = Inr True"
    by code_simp
  have h3: "documentMode (config ?args) = None"
    by (simp add: exampleArgs_def)
  have h4: "getType exampleCollaborators ''User'' = Some (ObjectType ''User'')"
    by code_simp
  have h5: "getPossibleTypes exampleCollaborators (ObjectType ''User'') = [ObjectType ''User'']"
    by code_simp
  have h6: "[''FFragmentDoc'', ''FFragment''] =
      [getFragmentVariableName exampleCollaborators ''F'',
       convertName exampleCollaborators ''F'' True (getFragmentSuffix exampleCollaborators ''F'')]"
    by code_simp
  have h7: "?reg = [(''F'', \<lparr>filePath = generateFilePath exampleCollaborators ''A.graphql'',
                        importNames = [''FFragmentDoc'', ''FFragment''],
                        onType = ''User'', node = exampleFragment ''F'' ''User'' [''id'']\<rparr>)]"
    by code_simp
  have h8: "extractExternalFragmentsInUse exampleCollaborators (document docB) ?reg = [(''F'', 0)]"
    by code_simp
  have g: \<open>generateImportStatement exampleCollaborators (baseOutputDir ?args) ''B.generated''
             (generateFilePath exampleCollaborators ''A.graphql'') (newSet [''FFragmentDoc'', ''FFragment''])
           = ''import { FFragmentDoc, FFragment } from "A.generated"''\<close>
    by code_simp
  note t = scenario_registry_and_plan [OF h1 h2 h3 h4 h5 h6 h7 h8, of "''B.generated''", unfolded g]
  from h2 h4 h5 h8 t [THEN conjunct1] t [THEN conjunct2] show ?thesis by (intro conjI)
qed

text \<open>
  C3 as stated fails when a later fragment has an unknown type condition: the name
  \<open>Dup\<close> is defined twice with different bodies, but the scan stops at the fragment
  \<open>Late\<close> and the error names that fragment and its type, not the conflicting names.
\<close>

theorem duplicate_conflicts_counterexample:
  \<open>name_value (exampleFragment ''Dup'' ''User'' [''id''])
     = name_value (exampleFragment ''Dup'' ''User'' [''id'', ''name''])
   \<and> print exampleCollaborators (exampleFragment ''Dup'' ''User'' [''id''])
     \<noteq> print exampleCollaborators (exampleFragment ''Dup'' ''User'' [''id'', ''name''])
   \<and> (''A.graphql'', exampleFragment ''Dup'' ''User'' [''id''])
       \<in> set (allFragments (conflictDocuments @ [lateUnknownDocument]))
   \<and> (''B.graphql'', exampleFragment ''Dup'' ''User'' [''id'', ''name''])
       \<in> set (allFragments (conflictDocuments @ [lateUnknownDocument]))
   \<and> buildFragmentRegistry exampleCollaborators
         (exampleArgs [[''typescript'']] (conflictDocuments @ [lateUnknownDocument]))
       = Inl (Error ''Fragment "Late" is set on non-existing type "Missing"!'')\<close>
  by code_simp

text \<open>
  C1 as stated fails on the file path: with the same fragment in \<^verbatim>\<open>A.graphql\<close> and
  \<^verbatim>\<open>B.graphql\<close> the registry holds the entry of the second document, not the entry
  that the first document alone gives.
\<close>

theorem first_entry_kept_counterexample:
  "print exampleCollaborators (exampleFragment ''Dup'' ''User'' [''id''])
     = print exampleCollaborators (exampleFragment ''Dup'' ''User'' [''id''])
   \<and> buildFragmentRegistry exampleCollaborators (exampleArgs [[''typescript'']] [hd identicalDocuments])
       = Inr [(''Dup'', dupEntry ''A.generated'')]
   \<and> buildFragmentRegistry exampleCollaborators (exampleArgs [[''typescript'']] identicalDocuments)
       = Inr [(''Dup'', dupEntry ''B.generated'')]
   \<and> dupEntry ''B.generated'' \<noteq> dupEntry ''A.generated''
   \<and> filePath (dupEntry ''B.generated'') \<noteq> generateFilePath exampleCollaborators ''A.graphql''"
  by code_simp

text \<open>
  C2 as stated fails on the import names: a fragment on a type with one possible type
  always gets its type-specialized name, so the entry of \<open>F\<close> has the names
  \<open>FFragmentDoc\<close> and \<open>FFragment\<close> with a document-variable plugin and \<open>FFragment\<close>
  alone without one, never \<open>FFragmentDoc\<close> alone.
\<close>

theorem scenario_import_names_counterexample:
  "buildFragmentRegistry exampleCollaborators (exampleArgs [[''typescript-react-apollo'']] [docA, docB])
     = Inr [(''F'', scenarioEntry [''FFragmentDoc'', ''FFragment''])]
   \<and> buildFragmentRegistry exampleCollaborators (exampleArgs [[''typescript'']] [docA, docB])
     = Inr [(''F'', scenarioEntry [''FFragment''])]
   \<and> importNames (scenarioEntry [''FFragmentDoc'', ''FFragment'']) \<noteq> [''FFragmentDoc'']
   \<and> importNames (scenarioEntry [''FFragment'']) \<noteq> [''FFragmentDoc'']"
  by code_simp

end
